theory Spec2Isabelle
  imports Main
begin

section \<open>Errors and messages\<close>

text \<open>
  The scripts raise \<^verbatim>\<open>ValidationError\<close> and \<^verbatim>\<open>ConfigurationError\<close> with a message built by
  a function of \<^verbatim>\<open>constants/messages\<close>. That module is not part of the sources at hand, so
  a message is kept as the name of its template applied to its arguments; the two
  messages that \<^verbatim>\<open>parseArguments\<close> builds inline are kept as text.
  \<^verbatim>\<open>TypeError\<close> is what the JavaScript runtime raises on a method call on
  \<^verbatim>\<open>undefined\<close>; \<^verbatim>\<open>ProcessExit\<close> is \<^verbatim>\<open>process.exit\<close>.
\<close>

datatype message =
    MsgEnvNotSet string
  | MsgRepoPathMustBeAbsolute string string
  | MsgRepoPathNotProvided string
  | MsgInvalidRepoSubfolder string string
  | MsgFlagRequiresAbsolutePath string
  | MsgFlagRequiresValue string string
  | MsgInvalidAgentsUp string
  | MsgCannotResolveRepositoryUnderCommonParent string string string
  | MsgUnsupportedOption string
  | MsgActionProvidedMultiple string string
  | MsgPositionalArgsNotAllowed string
  | MsgCannotInferDashboardBase
  | MsgUnableLocateWazuhDashboardAuto
  | MsgBaseRequiresAbsolute
  | MsgCannotCombineServerFlags
  | MsgUnsupportedModeToken
  | MSG_SERVER_MODE_REQUIRES_VERSION
  | MSG_SERVER_LOCAL_MODE_REQUIRES_VERSION
  | MsgText string

datatype error =
    ValidationError message
  | ConfigurationError message
  | TypeError string
  | ProcessExit nat

section \<open>Data model\<close>

record RepositoryOverride =
  name :: string
  path :: string

record EnvironmentPaths =
  currentRepoHostRoot :: string
  siblingRepoHostRoot :: string
  packageJsonPath :: string

text \<open>
  \<^verbatim>\<open>Config\<close> (\<^verbatim>\<open>types/config\<close>). An optional string is a string, unset when empty: the
  code tests these fields by truthiness only, and the empty string is falsy.
\<close>

record Config =
  action :: string
  pluginsRoot :: string
  osVersion :: string
  osdVersion :: string
  agentsUp :: string
  enableSaml :: bool
  serverFlagVersion :: string
  serverLocalFlagVersion :: string
  mode :: string
  modeVersion :: string
  useDashboardFromSource :: bool
  dashboardBase :: string
  useIndexerFromPackage :: bool
  userRepositories :: "RepositoryOverride list"

text \<open>\<^verbatim>\<open>process.env\<close>: a map from variable names to values.\<close>

type_synonym ProcessEnv = "string \<Rightarrow> string option"

text \<open>
  Modelled from the spec: the class \<^verbatim>\<open>Config\<close> is not part of the sources at hand. A
  fresh configuration has every optional value unset, both toggles off and no
  repository override. A setter stores its value (the provenance it also records is for
  diagnostics only), so a call of a setter is written as an update of its field.
\<close>

definition newConfig :: Config where
  "newConfig = \<lparr> action = [], pluginsRoot = [], osVersion = [], osdVersion = [],
     agentsUp = [], enableSaml = False, serverFlagVersion = [], serverLocalFlagVersion = [],
     mode = [], modeVersion = [], useDashboardFromSource = False, dashboardBase = [],
     useIndexerFromPackage = False, userRepositories = [] \<rparr>"

text \<open>
  Modelled from the spec: \<^verbatim>\<open>addUserRepositoryOverride\<close> of the class \<^verbatim>\<open>Config\<close>, not part of
  the sources at hand, appends to the ordered sequence of overrides; names need not be
  unique in it.
\<close>

definition addUserRepositoryOverride :: "RepositoryOverride \<Rightarrow> Config \<Rightarrow> Config" where
  "addUserRepositoryOverride r config =
     config\<lparr>userRepositories := userRepositories config @ [r]\<rparr>"

section \<open>Constants and helpers the code imports\<close>

text \<open>
  The tables \<^verbatim>\<open>FLAGS\<close>, \<^verbatim>\<open>ACTIONS\<close>, \<^verbatim>\<open>SECURITY_PLUGIN_ALIASES\<close>,
  \<^verbatim>\<open>SECURITY_PLUGIN_REPO_NAME\<close>, \<^verbatim>\<open>OSD_MAJOR_2X\<close> and \<^verbatim>\<open>SECURITY_CONFIG_PATHS\<close> of
  \<^verbatim>\<open>constants/app\<close> are not part of the sources at hand: every function takes them as
  a parameter, and what is proved holds for any table.
\<close>

record AppConstants =
  FLAGS_HELP :: string
  FLAGS_HELP_SHORT :: string
  FLAGS_PLUGINS_ROOT :: string
  FLAGS_PLUGINS_ROOT_WDP :: string
  FLAGS_PLUGINS_ROOT_WZ_HOME :: string
  FLAGS_OS_VERSION :: string
  FLAGS_OSD_VERSION :: string
  FLAGS_AGENTS_UP :: string
  FLAGS_SAML :: string
  FLAGS_SERVER :: string
  FLAGS_SERVER_LOCAL :: string
  FLAGS_REPO :: string
  FLAGS_BASE :: string
  FLAGS_INDEXER_LOCAL :: string
  ACTIONS :: "string list"
  SECURITY_PLUGIN_ALIASES :: "string list"
  SECURITY_PLUGIN_REPO_NAME :: string
  OSD_MAJOR_2X :: string
  SECURITY_CONFIG_PATHS_2X :: string

text \<open>
  Modelled from the spec: the table \<^verbatim>\<open>PROFILES\<close> of \<^verbatim>\<open>constants/app\<close> is not part of
  the sources at hand. The spec names the four profiles standard, SAML, server and
  server-local, and writes the server mode as "server" and the composite tokens as
  "server-local-<suffix>".
\<close>

definition PROFILES_STANDARD :: string where "PROFILES_STANDARD = ''standard''"
definition PROFILES_SAML :: string where "PROFILES_SAML = ''saml''"
definition PROFILES_SERVER :: string where "PROFILES_SERVER = ''server''"
definition PROFILES_SERVER_LOCAL :: string where "PROFILES_SERVER_LOCAL = ''server-local''"

text \<open>
  The helpers of \<^verbatim>\<open>utils/pathUtils\<close> are not part of the sources at hand either, and
  they, like Node's \<^verbatim>\<open>existsSync\<close> and \<^verbatim>\<open>resolve\<close>, depend on the file system of the
  host: they are parameters too. \<^verbatim>\<open>ensureAccessibleHostPath\<close> returns the error it
  raises, if any.
\<close>

record Host =
  stripTrailingSlash :: "string \<Rightarrow> string"
  toContainerPath :: "string \<Rightarrow> EnvironmentPaths \<Rightarrow> string"
  ensureAccessibleHostPath :: "string \<Rightarrow> string \<Rightarrow> EnvironmentPaths \<Rightarrow> error option"
  existsSync :: "string \<Rightarrow> bool"
  resolve :: "string \<Rightarrow> string \<Rightarrow> string"

subsection \<open>JavaScript string operations\<close>

definition startsWith :: "string \<Rightarrow> string \<Rightarrow> bool" where
  "startsWith s p = (take (length p) s = p)"

fun includesStr :: "string \<Rightarrow> string \<Rightarrow> bool" where
  "includesStr [] sub = (sub = [])"
| "includesStr (c # cs) sub = (startsWith (c # cs) sub \<or> includesStr cs sub)"

text \<open>\<^verbatim>\<open>s.split(sep)\<close> for a separator of one character.\<close>

fun splitStr :: "char \<Rightarrow> string \<Rightarrow> string list" where
  "splitStr sep [] = [[]]"
| "splitStr sep (c # cs) =
     (if c = sep then [] # splitStr sep cs
      else (case splitStr sep cs of
              [] \<Rightarrow> [[c]]
            | seg # segs \<Rightarrow> (c # seg) # segs))"

section \<open>environmentConfigurator.ts\<close>

definition configureModeAndSecurity ::
  "AppConstants \<Rightarrow> Config \<Rightarrow> ProcessEnv \<Rightarrow> (error + string) \<times> ProcessEnv" where
  "configureModeAndSecurity K config penv =
     (let primaryProfile = PROFILES_STANDARD;
          osdMajor = OSD_MAJOR_2X K;
          penv1 = penv(''WAZUH_DASHBOARD_CONF'' \<mapsto>
                    ''./config/'' @ osdMajor @ ''/osd/opensearch_dashboards.yml'');
          penv2 = penv1(''SEC_CONFIG_FILE'' \<mapsto> ''./config/'' @ osdMajor @ ''/os/config.yml'');
          penv3 = penv2(''SEC_CONFIG_PATH'' \<mapsto> SECURITY_CONFIG_PATHS_2X K);
          enableSaml' = (enableSaml config \<or> mode config = PROFILES_SAML);
          penv4 = (if enableSaml'
                   then penv3(''WAZUH_DASHBOARD_CONF'' \<mapsto>
                            ''./config/'' @ osdMajor @ ''/osd/opensearch_dashboards_saml.yml'',
                          ''SEC_CONFIG_FILE'' \<mapsto>
                            ''./config/'' @ osdMajor @ ''/os/config-saml.yml'')
                   else penv3)
      in if startsWith (mode config) (PROFILES_SERVER_LOCAL @ ''-'')
         then (Inl (ValidationError MsgUnsupportedModeToken), penv4)
         else if mode config = PROFILES_SERVER
         then (if modeVersion config = []
               then (Inl (ValidationError MSG_SERVER_MODE_REQUIRES_VERSION), penv4)
               else (Inr PROFILES_SERVER, penv4(''WAZUH_STACK'' \<mapsto> modeVersion config)))
         else if mode config = PROFILES_SERVER_LOCAL
         then (if modeVersion config = []
               then (Inl (ValidationError MSG_SERVER_LOCAL_MODE_REQUIRES_VERSION), penv4)
               else (Inr (if agentsUp config \<noteq> []
                          then PROFILES_SERVER_LOCAL @ ''-'' @ agentsUp config
                          else PROFILES_SERVER_LOCAL),
                     penv4(''IMAGE_TAG'' \<mapsto> modeVersion config)))
         else if mode config = PROFILES_SAML
         then (Inr PROFILES_SAML, penv4)
         else (Inr primaryProfile, penv4))"

section \<open>repoResolver.ts: resolveRepositoryHostPath\<close>

text \<open>
  The loop over the three candidates of one base (lines 59 to 67): a candidate whose
  container path is empty or does not exist is passed over, and so is one with no
  \<^verbatim>\<open>package.json\<close> under it (\<^verbatim>\<open>continue\<close>); the first other one becomes \<^verbatim>\<open>hostPath\<close>.
\<close>

fun probeCandidates :: "Host \<Rightarrow> EnvironmentPaths \<Rightarrow> string list \<Rightarrow> string option" where
  "probeCandidates H envPaths [] = None"
| "probeCandidates H envPaths (candidate # candidates) =
     (let containerCandidate = toContainerPath H candidate envPaths
      in if containerCandidate \<noteq> [] \<and> existsSync H containerCandidate
         then (if \<not> existsSync H (resolve H containerCandidate ''package.json'')
               then probeCandidates H envPaths candidates
               else Some candidate)
         else probeCandidates H envPaths candidates)"

text \<open>The callback of \<^verbatim>\<open>find\<close> (lines 50 to 69), returning the \<^verbatim>\<open>hostPath\<close> it assigns.\<close>

definition probeBase :: "Host \<Rightarrow> string \<Rightarrow> EnvironmentPaths \<Rightarrow> string \<Rightarrow> string option" where
  "probeBase H repoName envPaths base =
     (if base = [] then None
      else probeCandidates H envPaths
             [base @ ''/plugins/'' @ repoName, base @ ''/'' @ repoName, base])"

text \<open>\<^verbatim>\<open>find\<close> over the bases: the first base whose callback returns true, with the
  \<^verbatim>\<open>hostPath\<close> assigned there.\<close>

fun findBase ::
  "Host \<Rightarrow> string \<Rightarrow> EnvironmentPaths \<Rightarrow> string list \<Rightarrow> (string \<times> string) option" where
  "findBase H repoName envPaths [] = None"
| "findBase H repoName envPaths (base # bases) =
     (case probeBase H repoName envPaths base of
        Some hostPath \<Rightarrow> Some (base, hostPath)
      | None \<Rightarrow> findBase H repoName envPaths bases)"

definition candidateBases :: "Host \<Rightarrow> Config \<Rightarrow> EnvironmentPaths \<Rightarrow> string list" where
  "candidateBases H config envPaths =
     (if pluginsRoot config \<noteq> [] then [pluginsRoot config] else []) @
     [currentRepoHostRoot envPaths] @
     (if siblingRepoHostRoot envPaths \<noteq> []
      then [resolve H (siblingRepoHostRoot envPaths) ''wazuh-dashboard-plugins'',
            resolve H (siblingRepoHostRoot envPaths) ''wazuh-dashboard'']
      else [])"

definition repositoryPathLabel :: "string \<Rightarrow> string" where
  "repositoryPathLabel repoName =
     ''Repository path for '' @ [CHR 0x27] @ repoName @ [CHR 0x27]"

definition resolveRepositoryHostPath ::
  "Host \<Rightarrow> string \<Rightarrow> Config \<Rightarrow> EnvironmentPaths \<Rightarrow> error + string" where
  "resolveRepositoryHostPath H repoName config envPaths =
     (let override = find (\<lambda>repoOverride. name repoOverride = repoName) (userRepositories config);
          hostPath = (case override of
                        None \<Rightarrow> []
                      | Some r \<Rightarrow> if path r \<noteq> [] then stripTrailingSlash H (path r) else []);
          chosen =
            (if hostPath \<noteq> []
             then (if \<not> startsWith hostPath ''/''
                   then Inl (ValidationError (MsgRepoPathMustBeAbsolute repoName hostPath))
                   else Inr hostPath)
             else if currentRepoHostRoot envPaths = []
             then Inl (ConfigurationError (MsgEnvNotSet ''CURRENT_REPO_HOST_ROOT''))
             else (case findBase H repoName envPaths
                          (map (stripTrailingSlash H) (candidateBases H config envPaths)) of
                     None \<Rightarrow> Inl (ValidationError (MsgRepoPathNotProvided repoName))
                   | Some (resolvedBase, hostPath') \<Rightarrow> Inr hostPath'))
      in case chosen of
           Inl e \<Rightarrow> Inl e
         | Inr hostPath' \<Rightarrow>
             (case ensureAccessibleHostPath H hostPath' (repositoryPathLabel repoName) envPaths of
                Some e \<Rightarrow> Inl e
              | None \<Rightarrow> Inr (stripTrailingSlash H hostPath')))"

section \<open>repoResolver.ts: parseArguments\<close>

text \<open>
  The loop reads \<^verbatim>\<open>arg = argv[index]\<close> with the tokens after it, \<^verbatim>\<open>rest\<close>; the value of a
  flag, \<^verbatim>\<open>argv[++index]\<close> or \<^verbatim>\<open>argv[index + 1]\<close>, is the head of \<^verbatim>\<open>rest\<close> and is
  \<^verbatim>\<open>undefined\<close> when \<^verbatim>\<open>rest\<close> is empty. A case that does not throw says how far the index
  moves: \<^verbatim>\<open>One\<close> for \<^verbatim>\<open>index++\<close> alone, \<^verbatim>\<open>Two\<close> when the value is passed over as well.
\<close>

datatype advance = One | Two

type_synonym step = "error + Config \<times> advance"

definition casePluginsRoot ::
  "AppConstants \<Rightarrow> Host \<Rightarrow> EnvironmentPaths \<Rightarrow> string list \<Rightarrow> Config \<Rightarrow> step" where
  "casePluginsRoot K H envPaths rest config =
     (case rest of
        [] \<Rightarrow> Inl (ValidationError (MsgFlagRequiresAbsolutePath (FLAGS_PLUGINS_ROOT K)))
      | p # _ \<Rightarrow>
          if p = [] \<or> \<not> startsWith p ''/''
          then Inl (ValidationError (MsgFlagRequiresAbsolutePath (FLAGS_PLUGINS_ROOT K)))
          else (let config' = config\<lparr>pluginsRoot := stripTrailingSlash H p\<rparr>
                in case ensureAccessibleHostPath H (pluginsRoot config') ''Base path'' envPaths of
                     Some e \<Rightarrow> Inl e
                   | None \<Rightarrow> Inr (config', Two)))"

definition caseOsVersion :: "AppConstants \<Rightarrow> string list \<Rightarrow> Config \<Rightarrow> step" where
  "caseOsVersion K rest config =
     (case rest of
        [] \<Rightarrow> Inl (ValidationError (MsgFlagRequiresValue (FLAGS_OS_VERSION K) ''2.11.0''))
      | version # _ \<Rightarrow>
          if version = [] \<or> startsWith version ''-''
          then Inl (ValidationError (MsgFlagRequiresValue (FLAGS_OS_VERSION K) ''2.11.0''))
          else Inr (config\<lparr>osVersion := version\<rparr>, Two))"

definition caseOsdVersion :: "AppConstants \<Rightarrow> string list \<Rightarrow> Config \<Rightarrow> step" where
  "caseOsdVersion K rest config =
     (case rest of
        [] \<Rightarrow> Inl (ValidationError (MsgFlagRequiresValue (FLAGS_OSD_VERSION K) ''2.11.0''))
      | version # _ \<Rightarrow>
          if version = [] \<or> startsWith version ''-''
          then Inl (ValidationError (MsgFlagRequiresValue (FLAGS_OSD_VERSION K) ''2.11.0''))
          else Inr (config\<lparr>osdVersion := version\<rparr>, Two))"

text \<open>
  With no token after the flag, \<^verbatim>\<open>val\<close> is \<^verbatim>\<open>undefined\<close>, the setter stores it, and
  \<^verbatim>\<open>includes\<close> does not find it among the four strings: the case throws.
\<close>

definition caseAgentsUp :: "AppConstants \<Rightarrow> string list \<Rightarrow> Config \<Rightarrow> step" where
  "caseAgentsUp K rest config =
     (case rest of
        [] \<Rightarrow> Inl (ValidationError (MsgInvalidAgentsUp (FLAGS_AGENTS_UP K)))
      | v # _ \<Rightarrow>
          (let val = (if v = ''none'' \<or> v = ''0'' then ''without'' else v);
               config' = config\<lparr>agentsUp := val\<rparr>
           in if agentsUp config' \<notin> set [''rpm'', ''deb'', ''without'', []]
              then Inl (ValidationError (MsgInvalidAgentsUp (FLAGS_AGENTS_UP K)))
              else Inr (config', Two)))"

definition caseSaml :: "Config \<Rightarrow> step" where
  "caseSaml config = Inr (config\<lparr>enableSaml := True\<rparr>, One)"

definition caseServer :: "AppConstants \<Rightarrow> string list \<Rightarrow> Config \<Rightarrow> step" where
  "caseServer K rest config =
     (let msg = MsgText (FLAGS_SERVER K @ '' requires a version argument, e.g. '' @
                         FLAGS_SERVER K @ '' 4.12.0'')
      in case rest of
           [] \<Rightarrow> Inl (ValidationError msg)
         | version # _ \<Rightarrow>
             if version = [] \<or> startsWith version ''-''
             then Inl (ValidationError msg)
             else Inr (config\<lparr>serverFlagVersion := version\<rparr>, Two))"

definition caseServerLocal :: "AppConstants \<Rightarrow> string list \<Rightarrow> Config \<Rightarrow> step" where
  "caseServerLocal K rest config =
     (let msg = MsgText (FLAGS_SERVER_LOCAL K @ '' requires a version/tag argument, e.g. '' @
                         FLAGS_SERVER_LOCAL K @ '' my-tag'')
      in case rest of
           [] \<Rightarrow> Inl (ValidationError msg)
         | version # _ \<Rightarrow>
             if version = [] \<or> startsWith version ''-''
             then Inl (ValidationError msg)
             else Inr (config\<lparr>serverLocalFlagVersion := version\<rparr>, Two))"

text \<open>
  With no token after the flag, \<^verbatim>\<open>repoSpec\<close> is \<^verbatim>\<open>undefined\<close> and the call
  \<^verbatim>\<open>repoSpec.includes\<close> raises a \<^verbatim>\<open>TypeError\<close>. The destructuring
  \<^verbatim>\<open>[repoName, repoPath] = repoSpec.split('=')\<close> takes the first two segments.
\<close>

definition invalidRepoSpec :: "string \<Rightarrow> message" where
  "invalidRepoSpec repoSpec =
     MsgText (''Invalid repository specification '' @ [CHR 0x27] @ repoSpec @ [CHR 0x27] @
              ''. Expected format repo=/absolute/path.'')"

definition caseRepo ::
  "AppConstants \<Rightarrow> Host \<Rightarrow> EnvironmentPaths \<Rightarrow> string list \<Rightarrow> Config \<Rightarrow> step" where
  "caseRepo K H envPaths rest config =
     (case rest of
        [] \<Rightarrow> Inl (TypeError ''Cannot read properties of undefined (reading includes)'')
      | repoSpec # _ \<Rightarrow>
          if includesStr repoSpec ''=''
          then (case splitStr (CHR ''='') repoSpec of
                  repoName # repoPath # _ \<Rightarrow>
                    if repoName = [] \<or> repoPath = []
                    then Inl (ValidationError (invalidRepoSpec repoSpec))
                    else if includesStr repoPath ''/plugins/''
                    then Inl (ValidationError (MsgInvalidRepoSubfolder repoName repoPath))
                    else Inr (addUserRepositoryOverride
                                \<lparr>name = repoName, path = repoPath\<rparr> config, Two)
                | _ \<Rightarrow> Inl (ValidationError (invalidRepoSpec repoSpec)))
          else (let repoName = repoSpec;
                    siblingFolderName =
                      (if repoName \<in> set (SECURITY_PLUGIN_ALIASES K)
                       then SECURITY_PLUGIN_REPO_NAME K else repoName)
                in if siblingRepoHostRoot envPaths = []
                   then Inl (ValidationError (MsgCannotResolveRepositoryUnderCommonParent
                               repoName (FLAGS_REPO K) ''SIBLING_REPO_HOST_ROOT''))
                   else (let inferredHostPath = stripTrailingSlash H
                               (resolve H (siblingRepoHostRoot envPaths) siblingFolderName)
                         in case ensureAccessibleHostPath H inferredHostPath
                                   (repositoryPathLabel repoName) envPaths of
                              Some e \<Rightarrow> Inl e
                            | None \<Rightarrow>
                                Inr (addUserRepositoryOverride
                                       \<lparr>name = repoName, path = inferredHostPath\<rparr> config, Two))))"

definition caseBase ::
  "AppConstants \<Rightarrow> Host \<Rightarrow> EnvironmentPaths \<Rightarrow> string list \<Rightarrow> Config \<Rightarrow> step" where
  "caseBase K H envPaths rest config =
     (let config' = config\<lparr>useDashboardFromSource := True\<rparr>
      in case rest of
           [] \<Rightarrow> Inr (config', One)
         | nextArg # _ \<Rightarrow>
             if nextArg \<noteq> [] \<and> startsWith nextArg ''/''
             then (let basePath = stripTrailingSlash H nextArg
                   in case ensureAccessibleHostPath H basePath ''Dashboard base path'' envPaths of
                        Some e \<Rightarrow> Inl e
                      | None \<Rightarrow> Inr (config'\<lparr>dashboardBase := basePath\<rparr>, Two))
             else if nextArg \<noteq> [] \<and> \<not> startsWith nextArg ''-'' \<and> nextArg \<notin> set (ACTIONS K)
             then Inr (config', Two)
             else Inr (config', One))"

text \<open>The one case that writes to \<^verbatim>\<open>process.env\<close>; it never throws.\<close>

definition caseIndexerLocal ::
  "AppConstants \<Rightarrow> string list \<Rightarrow> Config \<Rightarrow> ProcessEnv \<Rightarrow> (Config \<times> advance) \<times> ProcessEnv" where
  "caseIndexerLocal K rest config penv =
     (let config' = config\<lparr>useIndexerFromPackage := True\<rparr>
      in case rest of
           [] \<Rightarrow> ((config', One), penv)
         | nextArg # _ \<Rightarrow>
             if nextArg \<noteq> []
             then ((config', Two), penv(''IMAGE_INDEXER_PACKAGE_TAG'' \<mapsto> nextArg))
             else if nextArg \<noteq> [] \<and> \<not> startsWith nextArg ''-'' \<and> nextArg \<notin> set (ACTIONS K)
             then ((config', Two), penv)
             else ((config', One), penv))"

definition caseDefault :: "AppConstants \<Rightarrow> string \<Rightarrow> Config \<Rightarrow> step" where
  "caseDefault K arg config =
     (if startsWith arg ''-''
      then Inl (ValidationError (MsgUnsupportedOption arg))
      else if arg \<in> set (ACTIONS K)
      then (if action config \<noteq> []
            then Inl (ValidationError (MsgActionProvidedMultiple (action config) arg))
            else Inr (config\<lparr>action := arg\<rparr>, One))
      else Inl (ValidationError (MsgPositionalArgsNotAllowed arg)))"

text \<open>The \<^verbatim>\<open>switch\<close>: the first case whose flag equals \<^verbatim>\<open>arg\<close>.\<close>

definition parseStep ::
  "AppConstants \<Rightarrow> Host \<Rightarrow> EnvironmentPaths \<Rightarrow> string \<Rightarrow> string list \<Rightarrow> Config \<Rightarrow> ProcessEnv
     \<Rightarrow> step \<times> ProcessEnv" where
  "parseStep K H envPaths arg rest config penv =
     (if arg = FLAGS_HELP K \<or> arg = FLAGS_HELP_SHORT K
      then (Inl (ProcessExit 1), penv)
      else if arg = FLAGS_PLUGINS_ROOT K \<or> arg = FLAGS_PLUGINS_ROOT_WDP K
              \<or> arg = FLAGS_PLUGINS_ROOT_WZ_HOME K
      then (casePluginsRoot K H envPaths rest config, penv)
      else if arg = FLAGS_OS_VERSION K then (caseOsVersion K rest config, penv)
      else if arg = FLAGS_OSD_VERSION K then (caseOsdVersion K rest config, penv)
      else if arg = FLAGS_AGENTS_UP K then (caseAgentsUp K rest config, penv)
      else if arg = FLAGS_SAML K then (caseSaml config, penv)
      else if arg = FLAGS_SERVER K then (caseServer K rest config, penv)
      else if arg = FLAGS_SERVER_LOCAL K then (caseServerLocal K rest config, penv)
      else if arg = FLAGS_REPO K then (caseRepo K H envPaths rest config, penv)
      else if arg = FLAGS_BASE K then (caseBase K H envPaths rest config, penv)
      else if arg = FLAGS_INDEXER_LOCAL K
      then (case caseIndexerLocal K rest config penv of (r, penv') \<Rightarrow> (Inr r, penv'))
      else (caseDefault K arg config, penv))"

text \<open>The \<^verbatim>\<open>while\<close> loop, from the token at \<^verbatim>\<open>index\<close> on. An error leaves the loop with
  the environment as it is by then.\<close>

fun parseLoop ::
  "AppConstants \<Rightarrow> Host \<Rightarrow> EnvironmentPaths \<Rightarrow> string list \<Rightarrow> Config \<Rightarrow> ProcessEnv
     \<Rightarrow> (error + Config) \<times> ProcessEnv" where
  "parseLoop K H envPaths [] config penv = (Inr config, penv)"
| "parseLoop K H envPaths (arg # rest) config penv =
     (case parseStep K H envPaths arg rest config penv of
        (Inl e, penv') \<Rightarrow> (Inl e, penv')
      | (Inr (config', One), penv') \<Rightarrow> parseLoop K H envPaths rest config' penv'
      | (Inr (config', Two), penv') \<Rightarrow> parseLoop K H envPaths (drop 1 rest) config' penv')"

text \<open>
  The tokens the loop reads as \<^verbatim>\<open>arg\<close>, one for each turn of the loop, each with the tokens
  after it: the recursion is the one of \<^verbatim>\<open>parseLoop\<close>, and a token passed over as the
  value of a flag is not read.
\<close>

fun loopReads ::
  "AppConstants \<Rightarrow> Host \<Rightarrow> EnvironmentPaths \<Rightarrow> string list \<Rightarrow> Config \<Rightarrow> ProcessEnv
     \<Rightarrow> (string \<times> string list) list" where
  "loopReads K H envPaths [] config penv = []"
| "loopReads K H envPaths (arg # rest) config penv =
     (arg, rest) #
     (case parseStep K H envPaths arg rest config penv of
        (Inl e, penv') \<Rightarrow> []
      | (Inr (config', One), penv') \<Rightarrow> loopReads K H envPaths rest config' penv'
      | (Inr (config', Two), penv') \<Rightarrow> loopReads K H envPaths (drop 1 rest) config' penv')"

text \<open>Lines 396 to 408: the dashboard base, when requested and not given.\<close>

definition resolveDashboardBase :: "Host \<Rightarrow> EnvironmentPaths \<Rightarrow> Config \<Rightarrow> error + Config" where
  "resolveDashboardBase H envPaths config =
     (if useDashboardFromSource config \<and> dashboardBase config = []
      then (let hostRoot = siblingRepoHostRoot envPaths
            in if hostRoot = []
               then Inl (ConfigurationError MsgCannotInferDashboardBase)
               else (let candidate = stripTrailingSlash H (resolve H hostRoot ''wazuh-dashboard'');
                         containerCandidate = toContainerPath H candidate envPaths
                     in if containerCandidate = []
                        then Inl (ValidationError MsgUnableLocateWazuhDashboardAuto)
                        else Inr (config\<lparr>dashboardBase := candidate\<rparr>)))
      else Inr config)"

text \<open>Lines 410 to 419.\<close>

definition checkDashboardBase :: "Host \<Rightarrow> EnvironmentPaths \<Rightarrow> Config \<Rightarrow> error + Config" where
  "checkDashboardBase H envPaths config =
     (if useDashboardFromSource config
      then (if dashboardBase config = [] \<or> \<not> startsWith (dashboardBase config) ''/''
            then Inl (ValidationError MsgBaseRequiresAbsolute)
            else (case ensureAccessibleHostPath H (dashboardBase config)
                         ''Dashboard base path'' envPaths of
                    Some e \<Rightarrow> Inl e
                  | None \<Rightarrow> Inr config))
      else Inr config)"

text \<open>Lines 421 to 430.\<close>

definition defaultPluginsRoot :: "Host \<Rightarrow> EnvironmentPaths \<Rightarrow> Config \<Rightarrow> error + Config" where
  "defaultPluginsRoot H envPaths config =
     (let config' =
            (if pluginsRoot config = [] \<and> currentRepoHostRoot envPaths \<noteq> []
             then config\<lparr>pluginsRoot :=
                    stripTrailingSlash H (resolve H (currentRepoHostRoot envPaths) ''plugins'')\<rparr>
             else config)
      in if pluginsRoot config' \<noteq> []
         then (case ensureAccessibleHostPath H (pluginsRoot config') ''Base path'' envPaths of
                 Some e \<Rightarrow> Inl e
               | None \<Rightarrow> Inr config')
         else Inr config')"

text \<open>Lines 432 to 445: the flags are mapped to the mode.\<close>

definition mapModeFlags :: "Config \<Rightarrow> error + Config" where
  "mapModeFlags config =
     (if serverFlagVersion config \<noteq> [] \<and> serverLocalFlagVersion config \<noteq> []
      then Inl (ValidationError MsgCannotCombineServerFlags)
      else if serverFlagVersion config \<noteq> []
      then Inr (config\<lparr>mode := PROFILES_SERVER, modeVersion := serverFlagVersion config\<rparr>)
      else if serverLocalFlagVersion config \<noteq> []
      then Inr (config\<lparr>mode := PROFILES_SERVER_LOCAL,
                        modeVersion := serverLocalFlagVersion config\<rparr>)
      else if enableSaml config \<and> mode config = []
      then Inr (config\<lparr>mode := PROFILES_SAML\<rparr>)
      else Inr config)"

definition andThen :: "error + 'a \<Rightarrow> ('a \<Rightarrow> error + 'b) \<Rightarrow> error + 'b" where
  "andThen r f = (case r of Inl e \<Rightarrow> Inl e | Inr v \<Rightarrow> f v)"

text \<open>What follows the loop, lines 395 to 447.\<close>

definition afterLoop :: "Host \<Rightarrow> EnvironmentPaths \<Rightarrow> Config \<Rightarrow> error + Config" where
  "afterLoop H envPaths config =
     andThen (andThen (andThen (resolveDashboardBase H envPaths config)
                               (checkDashboardBase H envPaths))
                      (defaultPluginsRoot H envPaths))
             mapModeFlags"

text \<open>\<^verbatim>\<open>parseArguments\<close> from a given configuration; the function itself starts from
  \<^verbatim>\<open>new Config()\<close>. The result is paired with \<^verbatim>\<open>process.env\<close> as the call leaves it.\<close>

definition parseFrom ::
  "AppConstants \<Rightarrow> Host \<Rightarrow> Config \<Rightarrow> string list \<Rightarrow> EnvironmentPaths \<Rightarrow> ProcessEnv
     \<Rightarrow> (error + Config) \<times> ProcessEnv" where
  "parseFrom K H config argv envPaths penv =
     (case parseLoop K H envPaths argv config penv of
        (Inl e, penv') \<Rightarrow> (Inl e, penv')
      | (Inr config', penv') \<Rightarrow> (afterLoop H envPaths config', penv'))"

definition parseArguments ::
  "AppConstants \<Rightarrow> Host \<Rightarrow> string list \<Rightarrow> EnvironmentPaths \<Rightarrow> ProcessEnv
     \<Rightarrow> (error + Config) \<times> ProcessEnv" where
  "parseArguments K H argv envPaths penv = parseFrom K H newConfig argv envPaths penv"

section \<open>Constants and a host to run the functions on\<close>

text \<open>
  A table of constants and a small host, for running the functions on concrete
  arguments: the flags are the ones the usage text and the spec name, the host maps
  \<^verbatim>\<open>/home\<close> to \<^verbatim>\<open>/mnt\<close> inside the container and holds two checkouts.
\<close>

definition sampleConstants :: AppConstants where
  "sampleConstants = \<lparr>
     FLAGS_HELP = ''--help'', FLAGS_HELP_SHORT = ''-h'',
     FLAGS_PLUGINS_ROOT = ''--plugins-root'', FLAGS_PLUGINS_ROOT_WDP = ''-wdp'',
     FLAGS_PLUGINS_ROOT_WZ_HOME = ''--wz-home'',
     FLAGS_OS_VERSION = ''-os'', FLAGS_OSD_VERSION = ''-osd'', FLAGS_AGENTS_UP = ''-a'',
     FLAGS_SAML = ''--saml'', FLAGS_SERVER = ''--server'',
     FLAGS_SERVER_LOCAL = ''--server-local'', FLAGS_REPO = ''--repo'',
     FLAGS_BASE = ''--base'', FLAGS_INDEXER_LOCAL = ''--indexer-local'',
     ACTIONS = [''up'', ''down'', ''stop'', ''start''],
     SECURITY_PLUGIN_ALIASES = [''security'', ''wazuh-security-dashboards''],
     SECURITY_PLUGIN_REPO_NAME = ''wazuh-security-dashboards-plugin'',
     OSD_MAJOR_2X = ''2.x'',
     SECURITY_CONFIG_PATHS_2X = ''/usr/share/opensearch/config/opensearch-security'' \<rparr>"

definition sampleToContainerPath :: "string \<Rightarrow> EnvironmentPaths \<Rightarrow> string" where
  "sampleToContainerPath p envPaths =
     (if startsWith p ''/home'' then ''/mnt'' @ drop 5 p else [])"

definition sampleHost :: Host where
  "sampleHost = \<lparr>
     stripTrailingSlash = (\<lambda>p. rev (dropWhile (\<lambda>c. c = CHR ''/'') (rev p))),
     toContainerPath = sampleToContainerPath,
     ensureAccessibleHostPath =
       (\<lambda>p label envPaths.
          if sampleToContainerPath p envPaths = []
          then Some (ValidationError (MsgText label)) else None),
     existsSync = (\<lambda>p. p \<in> set [''/mnt/wdp/plugins/main'', ''/mnt/wdp/plugins/main/package.json'',
                                  ''/mnt/wdp'', ''/mnt/wdp/package.json'', ''/mnt/wdp/plugins'']),
     resolve = (\<lambda>a b. a @ ''/'' @ b) \<rparr>"

text \<open>A host on which every path is mounted as it is, exists and holds a manifest.\<close>

definition openHost :: Host where
  "openHost = \<lparr>
     stripTrailingSlash = (\<lambda>p. rev (dropWhile (\<lambda>c. c = CHR ''/'') (rev p))),
     toContainerPath = (\<lambda>p envPaths. p),
     ensureAccessibleHostPath = (\<lambda>p label envPaths. None),
     existsSync = (\<lambda>p. True),
     resolve = (\<lambda>a b. a @ ''/'' @ b) \<rparr>"

definition sampleEnvPaths :: EnvironmentPaths where
  "sampleEnvPaths = \<lparr> currentRepoHostRoot = ''/home/wdp'', siblingRepoHostRoot = ''/home'',
     packageJsonPath = ''/home/wdp/package.json'' \<rparr>"

section \<open>The search of resolveRepositoryHostPath, in words\<close>

text \<open>
  The spec describes the search without an override as one ordered list of sub-paths,
  three for each candidate base, of which the first accepted one wins. A sub-path is
  accepted when its container path is not empty and exists, and a \<^verbatim>\<open>package.json\<close> exists
  directly under it.
\<close>

definition accepted :: "Host \<Rightarrow> EnvironmentPaths \<Rightarrow> string \<Rightarrow> bool" where
  "accepted H envPaths p =
     (toContainerPath H p envPaths \<noteq> [] \<and> existsSync H (toContainerPath H p envPaths)
      \<and> existsSync H (resolve H (toContainerPath H p envPaths) ''package.json''))"

definition subPaths :: "string \<Rightarrow> string \<Rightarrow> string list" where
  "subPaths repoName base = [base @ ''/plugins/'' @ repoName, base @ ''/'' @ repoName, base]"

text \<open>
  The candidate bases in the spec's words: \<^verbatim>\<open>pluginsRoot\<close> if set, \<^verbatim>\<open>currentRepoHostRoot\<close>,
  then, if a sibling root exists, \<^verbatim>\<open>wazuh-dashboard-plugins\<close> and \<^verbatim>\<open>wazuh-dashboard\<close> under it.
\<close>

definition specBases :: "Host \<Rightarrow> Config \<Rightarrow> EnvironmentPaths \<Rightarrow> string list" where
  "specBases H config envPaths =
     (if pluginsRoot config \<noteq> [] then [pluginsRoot config] else []) @
     [currentRepoHostRoot envPaths] @
     (if siblingRepoHostRoot envPaths \<noteq> []
      then [resolve H (siblingRepoHostRoot envPaths) ''wazuh-dashboard-plugins'',
            resolve H (siblingRepoHostRoot envPaths) ''wazuh-dashboard'']
      else [])"

text \<open>The search in the spec's words: the three sub-paths of each base, base after base.\<close>

definition specSearchOrder ::
  "Host \<Rightarrow> string \<Rightarrow> Config \<Rightarrow> EnvironmentPaths \<Rightarrow> string list" where
  "specSearchOrder H repoName config envPaths =
     concat (map (subPaths repoName) (specBases H config envPaths))"

text \<open>
  The search in the words of the amended claim: every base is first passed through
  \<^verbatim>\<open>stripTrailingSlash\<close>, a base left empty by it is passed over, and the three sub-paths
  are built on the stripped base.
\<close>

definition searchOrder :: "Host \<Rightarrow> string \<Rightarrow> Config \<Rightarrow> EnvironmentPaths \<Rightarrow> string list" where
  "searchOrder H repoName config envPaths =
     concat (map (subPaths repoName)
       (filter (\<lambda>base. base \<noteq> [])
          (map (stripTrailingSlash H) (specBases H config envPaths))))"

text \<open>The values of \<^verbatim>\<open>FLAGS\<close>, in the order of the cases of the \<^verbatim>\<open>switch\<close>.\<close>

definition flagTable :: "AppConstants \<Rightarrow> string list" where
  "flagTable K =
     [FLAGS_HELP K, FLAGS_HELP_SHORT K, FLAGS_PLUGINS_ROOT K, FLAGS_PLUGINS_ROOT_WDP K,
      FLAGS_PLUGINS_ROOT_WZ_HOME K, FLAGS_OS_VERSION K, FLAGS_OSD_VERSION K, FLAGS_AGENTS_UP K,
      FLAGS_SAML K, FLAGS_SERVER K, FLAGS_SERVER_LOCAL K, FLAGS_REPO K, FLAGS_BASE K,
      FLAGS_INDEXER_LOCAL K]"

text \<open>What the loop keeps of a configuration: the overrides recorded and the two server
  versions, once set.\<close>

definition keeps :: "Config \<Rightarrow> Config \<Rightarrow> bool" where
  "keeps config config' =
     (set (userRepositories config) \<subseteq> set (userRepositories config')
      \<and> (serverFlagVersion config \<noteq> [] \<longrightarrow> serverFlagVersion config' \<noteq> [])
      \<and> (serverLocalFlagVersion config \<noteq> [] \<longrightarrow> serverLocalFlagVersion config' \<noteq> []))"


section \<open>configureModeAndSecurity: the server and server-local modes\<close>

lemma startsWith_append: "startsWith (p @ s) p"
  by (simp add: startsWith_def)

lemma not_startsWith_server: "\<not> startsWith ''server'' (PROFILES_SERVER_LOCAL @ ''-'')"
  by (simp add: startsWith_def PROFILES_SERVER_LOCAL_def)

lemma not_startsWith_server_local:
  "\<not> startsWith ''server-local'' (PROFILES_SERVER_LOCAL @ ''-'')"
  by (simp add: startsWith_def PROFILES_SERVER_LOCAL_def)

text \<open>
  C4. With \<^verbatim>\<open>config.mode\<close> = "server": when \<^verbatim>\<open>modeVersion\<close> is not empty,
  \<^verbatim>\<open>configureModeAndSecurity\<close> returns the server profile and leaves \<^verbatim>\<open>WAZUH_STACK\<close> set to
  \<^verbatim>\<open>modeVersion\<close>; when \<^verbatim>\<open>modeVersion\<close> is empty, it raises a \<^verbatim>\<open>ValidationError\<close>.
\<close>

theorem configure_server_mode:
  assumes "mode config = ''server''"
  shows "(modeVersion config \<noteq> [] \<longrightarrow>
            fst (configureModeAndSecurity K config penv) = Inr PROFILES_SERVER \<and>
            snd (configureModeAndSecurity K config penv) ''WAZUH_STACK'' = Some (modeVersion config))
       \<and> (modeVersion config = [] \<longrightarrow>
            fst (configureModeAndSecurity K config penv) =
              Inl (ValidationError MSG_SERVER_MODE_REQUIRES_VERSION))"
  using assms not_startsWith_server
  by (simp add: configureModeAndSecurity_def Let_def PROFILES_SERVER_def)

theorem configure_server_mode_witness:
  "fst (configureModeAndSecurity sampleConstants
          (newConfig\<lparr>mode := ''server'', modeVersion := ''4.12.0''\<rparr>) Map.empty) = Inr ''server''
   \<and> snd (configureModeAndSecurity sampleConstants
          (newConfig\<lparr>mode := ''server'', modeVersion := ''4.12.0''\<rparr>) Map.empty) ''WAZUH_STACK''
       = Some ''4.12.0''
   \<and> fst (configureModeAndSecurity sampleConstants (newConfig\<lparr>mode := ''server''\<rparr>) Map.empty)
       = Inl (ValidationError MSG_SERVER_MODE_REQUIRES_VERSION)"
  using configure_server_mode [of "newConfig\<lparr>mode := ''server'', modeVersion := ''4.12.0''\<rparr>"
          sampleConstants Map.empty]
        configure_server_mode [of "newConfig\<lparr>mode := ''server''\<rparr>" sampleConstants Map.empty]
  by (simp add: newConfig_def PROFILES_SERVER_def)

text \<open>
  C5. \<^verbatim>\<open>configureModeAndSecurity\<close> raises a \<^verbatim>\<open>ValidationError\<close> for every mode of the form
  "server-local-<suffix>". For the mode "server-local" it raises a \<^verbatim>\<open>ValidationError\<close>
  when \<^verbatim>\<open>modeVersion\<close> is empty; otherwise it leaves \<^verbatim>\<open>IMAGE_TAG\<close> set to \<^verbatim>\<open>modeVersion\<close> and
  returns "server-local-<agentsUp>" when \<^verbatim>\<open>agentsUp\<close> is set, else "server-local".
\<close>

theorem configure_server_local_mode:
  "(mode config = ''server-local-'' @ suffix \<longrightarrow>
      fst (configureModeAndSecurity K config penv) = Inl (ValidationError MsgUnsupportedModeToken))
   \<and> (mode config = ''server-local'' \<and> modeVersion config = [] \<longrightarrow>
      fst (configureModeAndSecurity K config penv) =
        Inl (ValidationError MSG_SERVER_LOCAL_MODE_REQUIRES_VERSION))
   \<and> (mode config = ''server-local'' \<and> modeVersion config \<noteq> [] \<longrightarrow>
      snd (configureModeAndSecurity K config penv) ''IMAGE_TAG'' = Some (modeVersion config) \<and>
      fst (configureModeAndSecurity K config penv) =
        Inr (if agentsUp config \<noteq> [] then ''server-local-'' @ agentsUp config
             else ''server-local''))"
proof (intro conjI impI)
  assume m: "mode config = ''server-local-'' @ suffix"
  have "startsWith (mode config) (PROFILES_SERVER_LOCAL @ ''-'')"
    unfolding m using startsWith_append [of "''server-local-''" suffix]
    by (simp add: PROFILES_SERVER_LOCAL_def)
  then show "fst (configureModeAndSecurity K config penv) =
      Inl (ValidationError MsgUnsupportedModeToken)"
    by (simp add: configureModeAndSecurity_def Let_def)
next
  assume "mode config = ''server-local'' \<and> modeVersion config = []"
  then show "fst (configureModeAndSecurity K config penv) =
      Inl (ValidationError MSG_SERVER_LOCAL_MODE_REQUIRES_VERSION)"
    using not_startsWith_server_local
    by (simp add: configureModeAndSecurity_def Let_def PROFILES_SERVER_def
        PROFILES_SERVER_LOCAL_def)
next
  assume a: "mode config = ''server-local'' \<and> modeVersion config \<noteq> []"
  then show "snd (configureModeAndSecurity K config penv) ''IMAGE_TAG''
      = Some (modeVersion config)"
    using not_startsWith_server_local
    by (simp add: configureModeAndSecurity_def Let_def PROFILES_SERVER_def
        PROFILES_SERVER_LOCAL_def)
  from a show "fst (configureModeAndSecurity K config penv) =
      Inr (if agentsUp config \<noteq> [] then ''server-local-'' @ agentsUp config
           else ''server-local'')"
    using not_startsWith_server_local
    by (simp add: configureModeAndSecurity_def Let_def PROFILES_SERVER_def
        PROFILES_SERVER_LOCAL_def)
qed

theorem configure_server_local_mode_witness:
  "fst (configureModeAndSecurity sampleConstants (newConfig\<lparr>mode := ''server-local-rpm''\<rparr>)
          Map.empty) = Inl (ValidationError MsgUnsupportedModeToken)
   \<and> fst (configureModeAndSecurity sampleConstants (newConfig\<lparr>mode := ''server-local''\<rparr>)
          Map.empty) = Inl (ValidationError MSG_SERVER_LOCAL_MODE_REQUIRES_VERSION)
   \<and> snd (configureModeAndSecurity sampleConstants
          (newConfig\<lparr>mode := ''server-local'', modeVersion := ''my-tag'', agentsUp := ''rpm''\<rparr>)
          Map.empty) ''IMAGE_TAG'' = Some ''my-tag''
   \<and> fst (configureModeAndSecurity sampleConstants
          (newConfig\<lparr>mode := ''server-local'', modeVersion := ''my-tag'', agentsUp := ''rpm''\<rparr>)
          Map.empty) = Inr ''server-local-rpm''
   \<and> fst (configureModeAndSecurity sampleConstants
          (newConfig\<lparr>mode := ''server-local'', modeVersion := ''my-tag''\<rparr>)
          Map.empty) = Inr ''server-local''"
  using configure_server_local_mode [of "newConfig\<lparr>mode := ''server-local-rpm''\<rparr>" "''rpm''"
          sampleConstants Map.empty]
        configure_server_local_mode [of "newConfig\<lparr>mode := ''server-local''\<rparr>" "[]"
          sampleConstants Map.empty]
        configure_server_local_mode [of
          "newConfig\<lparr>mode := ''server-local'', modeVersion := ''my-tag'', agentsUp := ''rpm''\<rparr>"
          "[]" sampleConstants Map.empty]
        configure_server_local_mode [of
          "newConfig\<lparr>mode := ''server-local'', modeVersion := ''my-tag''\<rparr>"
          "[]" sampleConstants Map.empty]
  by (simp add: newConfig_def)

text \<open>
  C10. With \<^verbatim>\<open>config.enableSaml\<close> true, \<^verbatim>\<open>WAZUH_DASHBOARD_CONF\<close> and \<^verbatim>\<open>SEC_CONFIG_FILE\<close>
  are left set to the SAML files whatever the call returns or raises; in the mode
  "server" with a \<^verbatim>\<open>modeVersion\<close> that is not empty, the call returns the server profile.
\<close>

theorem configure_saml_files_with_server:
  assumes "enableSaml config"
  shows "snd (configureModeAndSecurity K config penv) ''WAZUH_DASHBOARD_CONF''
           = Some (''./config/'' @ OSD_MAJOR_2X K @ ''/osd/opensearch_dashboards_saml.yml'')
       \<and> snd (configureModeAndSecurity K config penv) ''SEC_CONFIG_FILE''
           = Some (''./config/'' @ OSD_MAJOR_2X K @ ''/os/config-saml.yml'')
       \<and> (mode config = ''server'' \<and> modeVersion config \<noteq> [] \<longrightarrow>
            fst (configureModeAndSecurity K config penv) = Inr PROFILES_SERVER)"
  using assms not_startsWith_server
  by (simp add: configureModeAndSecurity_def Let_def PROFILES_SERVER_def)

theorem configure_saml_files_with_server_witness:
  "snd (configureModeAndSecurity sampleConstants
          (newConfig\<lparr>enableSaml := True, mode := ''server'', modeVersion := ''4.12.0''\<rparr>)
          Map.empty) ''WAZUH_DASHBOARD_CONF'' = Some ''./config/2.x/osd/opensearch_dashboards_saml.yml''
   \<and> snd (configureModeAndSecurity sampleConstants
          (newConfig\<lparr>enableSaml := True, mode := ''server'', modeVersion := ''4.12.0''\<rparr>)
          Map.empty) ''SEC_CONFIG_FILE'' = Some ''./config/2.x/os/config-saml.yml''
   \<and> fst (configureModeAndSecurity sampleConstants
          (newConfig\<lparr>enableSaml := True, mode := ''server'', modeVersion := ''4.12.0''\<rparr>)
          Map.empty) = Inr ''server''"
  using configure_saml_files_with_server [of
          "newConfig\<lparr>enableSaml := True, mode := ''server'', modeVersion := ''4.12.0''\<rparr>"
          sampleConstants Map.empty]
  by (simp add: newConfig_def sampleConstants_def PROFILES_SERVER_def)

section \<open>resolveRepositoryHostPath\<close>

lemma find_first_match:
  "\<forall>q \<in> set pre. \<not> P q \<Longrightarrow> P r \<Longrightarrow> find P (pre @ r # post) = Some r"
  by (induction pre) auto

lemma find_no_match: "\<forall>q \<in> set xs. \<not> P q \<Longrightarrow> find P xs = None"
  by (induction xs) auto

lemma find_append_case:
  "find P (xs @ ys) = (case find P xs of None \<Rightarrow> find P ys | Some x \<Rightarrow> Some x)"
  by (induction xs) auto

lemma probeCandidates_find: "probeCandidates H envPaths cs = find (accepted H envPaths) cs"
  by (induction cs) (auto simp: accepted_def Let_def)

lemma findBase_find:
  "map_option snd (findBase H repoName envPaths bases) =
     find (accepted H envPaths)
       (concat (map (subPaths repoName) (filter (\<lambda>base. base \<noteq> []) bases)))"
proof (induction bases)
  case Nil
  then show ?case by simp
next
  case (Cons base bases)
  show ?case
  proof (cases "base = []")
    case True
    with Cons show ?thesis by (simp add: probeBase_def)
  next
    case False
    have pb: "probeBase H repoName envPaths base =
        find (accepted H envPaths) (subPaths repoName base)"
      using False by (simp only: probeBase_def probeCandidates_find subPaths_def if_False)
    show ?thesis
      using False Cons
      by (simp add: pb find_append_case split: option.splits)
  qed
qed

text \<open>
  C2, as amended. When several overrides carry the name asked for,
  \<^verbatim>\<open>resolveRepositoryHostPath\<close> uses the first-listed one (\<^verbatim>\<open>find\<close> stops at the first
  match): with a path that is not empty, also after \<^verbatim>\<open>stripTrailingSlash\<close>, the result is
  decided by that path alone, whatever is listed after it.
\<close>

theorem resolve_uses_first_override:
  assumes "userRepositories config = pre @ r # post"
    and "\<forall>q \<in> set pre. name q \<noteq> repoName"
    and "name r = repoName"
    and "path r \<noteq> []"
    and "stripTrailingSlash H (path r) \<noteq> []"
  shows "resolveRepositoryHostPath H repoName config envPaths =
     (if \<not> startsWith (stripTrailingSlash H (path r)) ''/''
      then Inl (ValidationError
                  (MsgRepoPathMustBeAbsolute repoName (stripTrailingSlash H (path r))))
      else (case ensureAccessibleHostPath H (stripTrailingSlash H (path r))
                   (repositoryPathLabel repoName) envPaths of
              Some e \<Rightarrow> Inl e
            | None \<Rightarrow> Inr (stripTrailingSlash H (stripTrailingSlash H (path r)))))"
proof -
  have "find (\<lambda>repoOverride. name repoOverride = repoName) (userRepositories config) = Some r"
    unfolding assms(1) using assms(2,3) by (intro find_first_match) simp_all
  then show ?thesis
    using assms(4,5) by (simp add: resolveRepositoryHostPath_def Let_def)
qed

theorem resolve_uses_first_override_witness:
  "resolveRepositoryHostPath sampleHost ''main''
     (newConfig\<lparr>userRepositories :=
        [\<lparr>name = ''other'', path = ''/home/other''\<rparr>, \<lparr>name = ''main'', path = ''/home/first/''\<rparr>,
         \<lparr>name = ''main'', path = ''/home/second''\<rparr>]\<rparr>) sampleEnvPaths = Inr ''/home/first''"
  using resolve_uses_first_override [of
      "newConfig\<lparr>userRepositories :=
        [\<lparr>name = ''other'', path = ''/home/other''\<rparr>, \<lparr>name = ''main'', path = ''/home/first/''\<rparr>,
         \<lparr>name = ''main'', path = ''/home/second''\<rparr>]\<rparr>"
      "[\<lparr>name = ''other'', path = ''/home/other''\<rparr>]" "\<lparr>name = ''main'', path = ''/home/first/''\<rparr>"
      "[\<lparr>name = ''main'', path = ''/home/second''\<rparr>]" "''main''" sampleHost sampleEnvPaths]
  by (simp add: newConfig_def sampleHost_def sampleToContainerPath_def startsWith_def)

text \<open>
  The claim as first stated fails: of two overrides with the same name the last-listed
  one is not the one used.
\<close>

theorem resolve_last_override_counterexample:
  "resolveRepositoryHostPath sampleHost ''main''
     (newConfig\<lparr>userRepositories :=
        [\<lparr>name = ''main'', path = ''/home/first''\<rparr>, \<lparr>name = ''main'', path = ''/home/second''\<rparr>]\<rparr>)
     sampleEnvPaths = Inr ''/home/first''
   \<and> resolveRepositoryHostPath sampleHost ''main''
     (newConfig\<lparr>userRepositories :=
        [\<lparr>name = ''main'', path = ''/home/first''\<rparr>, \<lparr>name = ''main'', path = ''/home/second''\<rparr>]\<rparr>)
     sampleEnvPaths \<noteq> Inr ''/home/second''"
  by (simp add: resolveRepositoryHostPath_def Let_def newConfig_def sampleHost_def
      sampleToContainerPath_def startsWith_def)

text \<open>
  C3, as amended. With no override for \<^verbatim>\<open>repoName\<close>, \<^verbatim>\<open>resolveRepositoryHostPath\<close> fails with
  a \<^verbatim>\<open>ConfigurationError\<close> when \<^verbatim>\<open>currentRepoHostRoot\<close> is unset. Otherwise the candidate
  bases (\<^verbatim>\<open>pluginsRoot\<close> if set, \<^verbatim>\<open>currentRepoHostRoot\<close>, then under a sibling root
  \<^verbatim>\<open>wazuh-dashboard-plugins\<close> and \<^verbatim>\<open>wazuh-dashboard\<close>) are each passed through
  \<^verbatim>\<open>stripTrailingSlash\<close>, a base left empty is passed over, and under each stripped base
  \<^verbatim>\<open>plugins/repoName\<close>, \<^verbatim>\<open>repoName\<close> and the base are probed in that order. The first
  accepted sub-path is taken and the search stops; with none accepted the call fails
  with a \<^verbatim>\<open>ValidationError\<close>. The sub-path taken is then checked by
  \<^verbatim>\<open>ensureAccessibleHostPath\<close> and returned.
\<close>

theorem resolve_without_override:
  assumes "\<forall>r \<in> set (userRepositories config). name r \<noteq> repoName"
  shows "resolveRepositoryHostPath H repoName config envPaths =
     (if currentRepoHostRoot envPaths = []
      then Inl (ConfigurationError (MsgEnvNotSet ''CURRENT_REPO_HOST_ROOT''))
      else (case find (accepted H envPaths) (searchOrder H repoName config envPaths) of
              None \<Rightarrow> Inl (ValidationError (MsgRepoPathNotProvided repoName))
            | Some hostPath \<Rightarrow>
                (case ensureAccessibleHostPath H hostPath (repositoryPathLabel repoName) envPaths of
                   Some e \<Rightarrow> Inl e
                 | None \<Rightarrow> Inr (stripTrailingSlash H hostPath))))"
proof -
  have nf: "find (\<lambda>repoOverride. name repoOverride = repoName) (userRepositories config) = None"
    using assms by (intro find_no_match) simp
  have so: "find (accepted H envPaths) (searchOrder H repoName config envPaths) =
      map_option snd (findBase H repoName envPaths
        (map (stripTrailingSlash H) (candidateBases H config envPaths)))"
    unfolding findBase_find searchOrder_def specBases_def candidateBases_def ..
  show ?thesis
    unfolding so
    by (simp add: resolveRepositoryHostPath_def nf Let_def split: option.splits)
qed

lemma sample_searchOrder:
  "searchOrder sampleHost ''main'' newConfig sampleEnvPaths =
     [''/home/wdp/plugins/main'', ''/home/wdp/main'', ''/home/wdp'',
      ''/home/wazuh-dashboard-plugins/plugins/main'', ''/home/wazuh-dashboard-plugins/main'',
      ''/home/wazuh-dashboard-plugins'',
      ''/home/wazuh-dashboard/plugins/main'', ''/home/wazuh-dashboard/main'',
      ''/home/wazuh-dashboard'']"
  by (simp add: searchOrder_def specBases_def subPaths_def newConfig_def sampleHost_def
      sampleEnvPaths_def)

theorem resolve_without_override_witness:
  "resolveRepositoryHostPath sampleHost ''main'' newConfig sampleEnvPaths
     = Inr ''/home/wdp/plugins/main''
   \<and> resolveRepositoryHostPath sampleHost ''main'' newConfig
       (sampleEnvPaths\<lparr>currentRepoHostRoot := []\<rparr>)
     = Inl (ConfigurationError (MsgEnvNotSet ''CURRENT_REPO_HOST_ROOT''))
   \<and> resolveRepositoryHostPath sampleHost ''main'' newConfig
       \<lparr>currentRepoHostRoot = ''/srv/none'', siblingRepoHostRoot = [], packageJsonPath = []\<rparr>
     = Inl (ValidationError (MsgRepoPathNotProvided ''main''))"
proof (intro conjI)
  have h: "\<forall>r \<in> set (userRepositories newConfig). name r \<noteq> ''main''"
    by (simp add: newConfig_def)
  show "resolveRepositoryHostPath sampleHost ''main'' newConfig sampleEnvPaths
      = Inr ''/home/wdp/plugins/main''"
    unfolding resolve_without_override [OF h] sample_searchOrder
    by (simp add: sampleHost_def sampleEnvPaths_def accepted_def
        sampleToContainerPath_def startsWith_def)
  show "resolveRepositoryHostPath sampleHost ''main'' newConfig
       (sampleEnvPaths\<lparr>currentRepoHostRoot := []\<rparr>)
     = Inl (ConfigurationError (MsgEnvNotSet ''CURRENT_REPO_HOST_ROOT''))"
    using resolve_without_override [of newConfig "''main''" sampleHost
        "sampleEnvPaths\<lparr>currentRepoHostRoot := []\<rparr>"]
    by (simp add: newConfig_def)
  show "resolveRepositoryHostPath sampleHost ''main'' newConfig
       \<lparr>currentRepoHostRoot = ''/srv/none'', siblingRepoHostRoot = [], packageJsonPath = []\<rparr>
     = Inl (ValidationError (MsgRepoPathNotProvided ''main''))"
    using resolve_without_override [of newConfig "''main''" sampleHost
        "\<lparr>currentRepoHostRoot = ''/srv/none'', siblingRepoHostRoot = [], packageJsonPath = []\<rparr>"]
    by (simp add: newConfig_def searchOrder_def specBases_def subPaths_def sampleHost_def
        accepted_def sampleToContainerPath_def startsWith_def)
qed

text \<open>
  The claim as first stated fails: with \<^verbatim>\<open>currentRepoHostRoot\<close> the root directory, on a
  host where every path is accepted, the search over the bases as they are finds
  \<^verbatim>\<open>//plugins/main\<close>, while the function strips the base to the empty string, passes it
  over and fails.
\<close>

theorem resolve_search_unstripped_counterexample:
  "find (accepted openHost
           \<lparr>currentRepoHostRoot = ''/'', siblingRepoHostRoot = [], packageJsonPath = []\<rparr>)
        (specSearchOrder openHost ''main'' newConfig
           \<lparr>currentRepoHostRoot = ''/'', siblingRepoHostRoot = [], packageJsonPath = []\<rparr>)
     = Some ''//plugins/main''
   \<and> resolveRepositoryHostPath openHost ''main'' newConfig
        \<lparr>currentRepoHostRoot = ''/'', siblingRepoHostRoot = [], packageJsonPath = []\<rparr>
     = Inl (ValidationError (MsgRepoPathNotProvided ''main''))"
  by (simp add: specSearchOrder_def specBases_def subPaths_def accepted_def openHost_def
      newConfig_def resolveRepositoryHostPath_def candidateBases_def probeBase_def Let_def)

text \<open>
  Where \<^verbatim>\<open>stripTrailingSlash\<close> leaves every base as it is and none is empty, the search of
  the amended claim is the one the spec words.
\<close>

lemma searchOrder_spec:
  assumes "\<forall>base \<in> set (specBases H config envPaths).
             stripTrailingSlash H base = base \<and> base \<noteq> []"
  shows "searchOrder H repoName config envPaths = specSearchOrder H repoName config envPaths"
proof -
  have "map (stripTrailingSlash H) (specBases H config envPaths) = specBases H config envPaths"
    using assms by (simp add: map_idI)
  moreover have "filter (\<lambda>base. base \<noteq> []) (specBases H config envPaths)
      = specBases H config envPaths"
    using assms by (simp add: filter_id_conv)
  ultimately show ?thesis
    by (simp add: searchOrder_def specSearchOrder_def)
qed

section \<open>parseArguments\<close>

lemma flagTable_rev:
  "distinct (flagTable K) \<Longrightarrow>
   distinct [FLAGS_INDEXER_LOCAL K, FLAGS_BASE K, FLAGS_REPO K, FLAGS_SERVER_LOCAL K,
      FLAGS_SERVER K, FLAGS_SAML K, FLAGS_AGENTS_UP K, FLAGS_OSD_VERSION K, FLAGS_OS_VERSION K,
      FLAGS_PLUGINS_ROOT_WZ_HOME K, FLAGS_PLUGINS_ROOT_WDP K, FLAGS_PLUGINS_ROOT K,
      FLAGS_HELP_SHORT K, FLAGS_HELP K]"
proof -
  assume d: "distinct (flagTable K)"
  have "rev (flagTable K) =
     [FLAGS_INDEXER_LOCAL K, FLAGS_BASE K, FLAGS_REPO K, FLAGS_SERVER_LOCAL K,
      FLAGS_SERVER K, FLAGS_SAML K, FLAGS_AGENTS_UP K, FLAGS_OSD_VERSION K, FLAGS_OS_VERSION K,
      FLAGS_PLUGINS_ROOT_WZ_HOME K, FLAGS_PLUGINS_ROOT_WDP K, FLAGS_PLUGINS_ROOT K,
      FLAGS_HELP_SHORT K, FLAGS_HELP K]"
    by (simp add: flagTable_def)
  then show ?thesis using d distinct_rev [of "flagTable K"] by simp
qed

lemma parseStep_server:
  "distinct (flagTable K) \<Longrightarrow>
   parseStep K H envPaths (FLAGS_SERVER K) rest config penv = (caseServer K rest config, penv)"
  using flagTable_rev [of K] by (simp add: parseStep_def flagTable_def)

lemma parseStep_server_local:
  "distinct (flagTable K) \<Longrightarrow>
   parseStep K H envPaths (FLAGS_SERVER_LOCAL K) rest config penv
     = (caseServerLocal K rest config, penv)"
  using flagTable_rev [of K] by (simp add: parseStep_def flagTable_def)

lemma parseStep_repo:
  "distinct (flagTable K) \<Longrightarrow>
   parseStep K H envPaths (FLAGS_REPO K) rest config penv
     = (caseRepo K H envPaths rest config, penv)"
  using flagTable_rev [of K] by (simp add: parseStep_def flagTable_def)

lemma parseStep_base:
  "distinct (flagTable K) \<Longrightarrow>
   parseStep K H envPaths (FLAGS_BASE K) rest config penv
     = (caseBase K H envPaths rest config, penv)"
  using flagTable_rev [of K] by (simp add: parseStep_def flagTable_def)

lemma parseStep_indexer_local:
  "distinct (flagTable K) \<Longrightarrow>
   parseStep K H envPaths (FLAGS_INDEXER_LOCAL K) rest config penv
     = (case caseIndexerLocal K rest config penv of (r, penv') \<Rightarrow> (Inr r, penv'))"
  using flagTable_rev [of K] by (simp add: parseStep_def flagTable_def)

lemma parseLoop_indexer_local:
  assumes "distinct (flagTable K)" and "nextArg \<noteq> []"
  shows "parseLoop K H envPaths (FLAGS_INDEXER_LOCAL K # nextArg # rest) config penv =
         parseLoop K H envPaths rest (config\<lparr>useIndexerFromPackage := True\<rparr>)
           (penv(''IMAGE_INDEXER_PACKAGE_TAG'' \<mapsto> nextArg))"
  using assms by (simp add: parseStep_indexer_local caseIndexerLocal_def)






lemma keeps_refl: "keeps c c"
  by (simp add: keeps_def)

lemma keeps_trans: "keeps a b \<Longrightarrow> keeps b c \<Longrightarrow> keeps a c"
  by (auto simp: keeps_def)

lemma casePluginsRoot_keeps:
  "casePluginsRoot K H envPaths rest config = Inr (config', adv) \<Longrightarrow> keeps config config'"
  by (auto simp: casePluginsRoot_def keeps_def Let_def split: list.splits if_splits option.splits)

lemma caseOsVersion_keeps:
  "caseOsVersion K rest config = Inr (config', adv) \<Longrightarrow> keeps config config'"
  by (auto simp: caseOsVersion_def keeps_def split: list.splits if_splits)

lemma caseOsdVersion_keeps:
  "caseOsdVersion K rest config = Inr (config', adv) \<Longrightarrow> keeps config config'"
  by (auto simp: caseOsdVersion_def keeps_def split: list.splits if_splits)

lemma caseAgentsUp_keeps:
  "caseAgentsUp K rest config = Inr (config', adv) \<Longrightarrow> keeps config config'"
  by (auto simp: caseAgentsUp_def keeps_def Let_def split: list.splits if_splits)

lemma caseSaml_keeps: "caseSaml config = Inr (config', adv) \<Longrightarrow> keeps config config'"
  by (auto simp: caseSaml_def keeps_def)

lemma caseServer_keeps:
  "caseServer K rest config = Inr (config', adv) \<Longrightarrow> keeps config config'"
  by (auto simp: caseServer_def keeps_def Let_def split: list.splits if_splits)

lemma caseServerLocal_keeps:
  "caseServerLocal K rest config = Inr (config', adv) \<Longrightarrow> keeps config config'"
  by (auto simp: caseServerLocal_def keeps_def Let_def split: list.splits if_splits)

lemma caseRepo_keeps:
  "caseRepo K H envPaths rest config = Inr (config', adv) \<Longrightarrow> keeps config config'"
  by (auto simp: caseRepo_def keeps_def Let_def addUserRepositoryOverride_def
      split: list.splits if_splits option.splits)

lemma caseBase_keeps:
  "caseBase K H envPaths rest config = Inr (config', adv) \<Longrightarrow> keeps config config'"
  by (auto simp: caseBase_def keeps_def Let_def split: list.splits if_splits option.splits)

lemma caseIndexerLocal_keeps:
  "caseIndexerLocal K rest config penv = ((config', adv), penv') \<Longrightarrow> keeps config config'"
  by (auto simp: caseIndexerLocal_def keeps_def Let_def split: list.splits if_splits)

lemma caseDefault_keeps:
  "caseDefault K arg config = Inr (config', adv) \<Longrightarrow> keeps config config'"
  by (auto simp: caseDefault_def keeps_def split: if_splits)

lemma parseStep_keeps:
  assumes "parseStep K H envPaths arg rest config penv = (Inr (config', adv), penv')"
  shows "keeps config config'"
  using assms
  by (auto simp: parseStep_def split: if_splits prod.splits
      dest: casePluginsRoot_keeps caseOsVersion_keeps caseOsdVersion_keeps caseAgentsUp_keeps
        caseSaml_keeps caseServer_keeps caseServerLocal_keeps caseRepo_keeps caseBase_keeps
        caseIndexerLocal_keeps caseDefault_keeps)

lemma parseLoop_keeps:
  "parseLoop K H envPaths argv config penv = (Inr config', penv') \<Longrightarrow> keeps config config'"
proof (induction K H envPaths argv config penv rule: parseLoop.induct)
  case (1 K H envPaths config penv)
  then show ?case by (simp add: keeps_refl)
next
  case (2 K H envPaths arg rest config penv)
  obtain r penv1 where st: "parseStep K H envPaths arg rest config penv = (r, penv1)"
    by (cases "parseStep K H envPaths arg rest config penv")
  show ?case
  proof (cases r)
    case (Inl e)
    with st "2.prems" show ?thesis by simp
  next
    case (Inr ca)
    obtain config1 adv where ca: "ca = (config1, adv)" by (cases ca)
    have k1: "keeps config config1"
      using parseStep_keeps st Inr ca by blast
    show ?thesis
    proof (cases adv)
      case One
      with "2.IH"(1) "2.prems" st Inr ca have "keeps config1 config'" by simp
      with k1 show ?thesis by (rule keeps_trans)
    next
      case Two
      with "2.IH"(2) "2.prems" st Inr ca have "keeps config1 config'" by simp
      with k1 show ?thesis by (rule keeps_trans)
    qed
  qed
qed

lemma afterLoop_Inr:
  "afterLoop H envPaths config = Inr config' \<Longrightarrow>
     userRepositories config' = userRepositories config
     \<and> serverFlagVersion config' = serverFlagVersion config
     \<and> serverLocalFlagVersion config' = serverLocalFlagVersion config
     \<and> (serverFlagVersion config = [] \<or> serverLocalFlagVersion config = [])"
  by (auto simp: afterLoop_def andThen_def resolveDashboardBase_def checkDashboardBase_def
      defaultPluginsRoot_def mapModeFlags_def Let_def split: sum.splits if_splits option.splits)



lemma parseLoop_server:
  assumes "distinct (flagTable K)" and "version \<noteq> []" and "\<not> startsWith version ''-''"
  shows "parseLoop K H envPaths (FLAGS_SERVER K # version # rest) config penv =
         parseLoop K H envPaths rest (config\<lparr>serverFlagVersion := version\<rparr>) penv"
  using assms by (simp add: parseStep_server caseServer_def)

lemma parseLoop_server_local:
  assumes "distinct (flagTable K)" and "version \<noteq> []" and "\<not> startsWith version ''-''"
  shows "parseLoop K H envPaths (FLAGS_SERVER_LOCAL K # version # rest) config penv =
         parseLoop K H envPaths rest (config\<lparr>serverLocalFlagVersion := version\<rparr>) penv"
  using assms by (simp add: parseStep_server_local caseServerLocal_def)

lemma loopReads_server_recorded:
  assumes v: "v \<noteq> []" "\<not> startsWith v ''-''"
  shows "distinct (flagTable K) \<Longrightarrow>
         (FLAGS_SERVER K, v # r) \<in> set (loopReads K H envPaths argv config penv) \<Longrightarrow>
         parseLoop K H envPaths argv config penv = (Inr c, penv') \<Longrightarrow>
         serverFlagVersion c \<noteq> []"
proof (induction K H envPaths argv config penv rule: parseLoop.induct)
  case (1 K H envPaths config penv)
  then show ?case by simp
next
  case (2 K H envPaths arg rest config penv)
  obtain s penv1 where st: "parseStep K H envPaths arg rest config penv = (s, penv1)"
    by (cases "parseStep K H envPaths arg rest config penv")
  show ?case
  proof (cases "(arg, rest) = (FLAGS_SERVER K, v # r)")
    case True
    then have a: "arg = FLAGS_SERVER K" and rs: "rest = v # r" by simp_all
    have "parseLoop K H envPaths r (config\<lparr>serverFlagVersion := v\<rparr>) penv = (Inr c, penv')"
      using "2.prems"(3) parseLoop_server [OF "2.prems"(1) v, of H envPaths r config penv]
      unfolding a rs by simp
    from parseLoop_keeps [OF this] v show ?thesis by (simp add: keeps_def)
  next
    case False
    show ?thesis
    proof (cases s)
      case (Inl e)
      with st "2.prems"(3) show ?thesis by simp
    next
      case (Inr ca)
      obtain config1 adv where ca: "ca = (config1, adv)" by (cases ca)
      show ?thesis
      proof (cases adv)
        case One
        from "2.prems"(2) False st Inr ca One
        have m: "(FLAGS_SERVER K, v # r) \<in> set (loopReads K H envPaths rest config1 penv1)"
          by auto
        from "2.prems"(3) st Inr ca One
        have l: "parseLoop K H envPaths rest config1 penv1 = (Inr c, penv')"
          by simp
        from "2.IH"(1) [OF st [symmetric] Inr ca [symmetric] One "2.prems"(1) m l] show ?thesis .
      next
        case Two
        from "2.prems"(2) False st Inr ca Two
        have m: "(FLAGS_SERVER K, v # r) \<in> set (loopReads K H envPaths (drop 1 rest) config1 penv1)"
          by auto
        from "2.prems"(3) st Inr ca Two
        have l: "parseLoop K H envPaths (drop 1 rest) config1 penv1 = (Inr c, penv')"
          by simp
        from "2.IH"(2) [OF st [symmetric] Inr ca [symmetric] Two "2.prems"(1) m l] show ?thesis .
      qed
    qed
  qed
qed


lemma loopReads_server_local_recorded:
  assumes t: "t \<noteq> []" "\<not> startsWith t ''-''"
  shows "distinct (flagTable K) \<Longrightarrow>
         (FLAGS_SERVER_LOCAL K, t # r) \<in> set (loopReads K H envPaths argv config penv) \<Longrightarrow>
         parseLoop K H envPaths argv config penv = (Inr c, penv') \<Longrightarrow>
         serverLocalFlagVersion c \<noteq> []"
proof (induction K H envPaths argv config penv rule: parseLoop.induct)
  case (1 K H envPaths config penv)
  then show ?case by simp
next
  case (2 K H envPaths arg rest config penv)
  obtain s penv1 where st: "parseStep K H envPaths arg rest config penv = (s, penv1)"
    by (cases "parseStep K H envPaths arg rest config penv")
  show ?case
  proof (cases "(arg, rest) = (FLAGS_SERVER_LOCAL K, t # r)")
    case True
    then have a: "arg = FLAGS_SERVER_LOCAL K" and rs: "rest = t # r" by simp_all
    have "parseLoop K H envPaths r (config\<lparr>serverLocalFlagVersion := t\<rparr>) penv = (Inr c, penv')"
      using "2.prems"(3) parseLoop_server_local [OF "2.prems"(1) t, of H envPaths r config penv]
      unfolding a rs by simp
    from parseLoop_keeps [OF this] t show ?thesis by (simp add: keeps_def)
  next
    case False
    show ?thesis
    proof (cases s)
      case (Inl e)
      with st "2.prems"(3) show ?thesis by simp
    next
      case (Inr ca)
      obtain config1 adv where ca: "ca = (config1, adv)" by (cases ca)
      show ?thesis
      proof (cases adv)
        case One
        from "2.prems"(2) False st Inr ca One
        have m: "(FLAGS_SERVER_LOCAL K, t # r) \<in> set (loopReads K H envPaths rest config1 penv1)"
          by auto
        from "2.prems"(3) st Inr ca One
        have l: "parseLoop K H envPaths rest config1 penv1 = (Inr c, penv')"
          by simp
        from "2.IH"(1) [OF st [symmetric] Inr ca [symmetric] One "2.prems"(1) m l] show ?thesis .
      next
        case Two
        from "2.prems"(2) False st Inr ca Two
        have m: "(FLAGS_SERVER_LOCAL K, t # r) \<in> set (loopReads K H envPaths (drop 1 rest) config1 penv1)"
          by auto
        from "2.prems"(3) st Inr ca Two
        have l: "parseLoop K H envPaths (drop 1 rest) config1 penv1 = (Inr c, penv')"
          by simp
        from "2.IH"(2) [OF st [symmetric] Inr ca [symmetric] Two "2.prems"(1) m l] show ?thesis .
      qed
    qed
  qed
qed

lemma both_read_fails:
  assumes d: "distinct (flagTable K)"
    and sv: "(FLAGS_SERVER K, v # r) \<in> set (loopReads K H envPaths argv config penv)"
    and v: "v \<noteq> []" "\<not> startsWith v ''-''"
    and st: "(FLAGS_SERVER_LOCAL K, t # r') \<in> set (loopReads K H envPaths argv config penv)"
    and t: "t \<noteq> []" "\<not> startsWith t ''-''"
  shows "(\<exists>e. fst (parseFrom K H config argv envPaths penv) = Inl e)
       \<and> (\<forall>c c1 penv'. parseLoop K H envPaths argv config penv = (Inr c, penv')
            \<and> andThen (andThen (resolveDashboardBase H envPaths c) (checkDashboardBase H envPaths))
                 (defaultPluginsRoot H envPaths) = Inr c1 \<longrightarrow>
            parseFrom K H config argv envPaths penv =
              (Inl (ValidationError MsgCannotCombineServerFlags), penv'))"
proof (intro conjI allI impI)
  show "\<exists>e. fst (parseFrom K H config argv envPaths penv) = Inl e"
  proof (cases "fst (parseFrom K H config argv envPaths penv)")
    case (Inl e)
    then show ?thesis by blast
  next
    case (Inr config')
    then obtain c penv' where l: "parseLoop K H envPaths argv config penv = (Inr c, penv')"
      and a: "afterLoop H envPaths c = Inr config'"
      by (auto simp: parseFrom_def split: prod.splits sum.splits)
    from loopReads_server_recorded [OF v d sv l] loopReads_server_local_recorded [OF t d st l]
      afterLoop_Inr [OF a]
    show ?thesis by simp
  qed
next
  fix c c1 penv'
  assume h: "parseLoop K H envPaths argv config penv = (Inr c, penv')
      \<and> andThen (andThen (resolveDashboardBase H envPaths c) (checkDashboardBase H envPaths))
           (defaultPluginsRoot H envPaths) = Inr c1"
  then have l: "parseLoop K H envPaths argv config penv = (Inr c, penv')"
    and pre: "andThen (andThen (resolveDashboardBase H envPaths c)
        (checkDashboardBase H envPaths)) (defaultPluginsRoot H envPaths) = Inr c1"
    by simp_all
  have both: "serverFlagVersion c \<noteq> []" "serverLocalFlagVersion c \<noteq> []"
    using loopReads_server_recorded [OF v d sv l] loopReads_server_local_recorded [OF t d st l]
    by simp_all
  have same: "serverFlagVersion c1 = serverFlagVersion c
      \<and> serverLocalFlagVersion c1 = serverLocalFlagVersion c"
    using pre
    by (auto simp: andThen_def resolveDashboardBase_def checkDashboardBase_def
        defaultPluginsRoot_def Let_def split: sum.splits if_splits option.splits)
  have "afterLoop H envPaths c = Inl (ValidationError MsgCannotCombineServerFlags)"
    using both same pre by (simp add: afterLoop_def andThen_def mapModeFlags_def)
  with l show "parseFrom K H config argv envPaths penv =
      (Inl (ValidationError MsgCannotCombineServerFlags), penv')"
    by (simp add: parseFrom_def)
qed

lemma parseFrom_both_recorded:
  assumes "serverFlagVersion config \<noteq> []" and "serverLocalFlagVersion config \<noteq> []"
  shows "\<exists>e. fst (parseFrom K H config rest envPaths penv) = Inl e"
proof (cases "fst (parseFrom K H config rest envPaths penv)")
  case (Inl e)
  then show ?thesis by blast
next
  case (Inr config')
  then obtain c penv' where l: "parseLoop K H envPaths rest config penv = (Inr c, penv')"
    and a: "afterLoop H envPaths c = Inr config'"
    by (auto simp: parseFrom_def split: prod.splits sum.splits)
  from parseLoop_keeps [OF l] assms
  have "serverFlagVersion c \<noteq> [] \<and> serverLocalFlagVersion c \<noteq> []"
    by (simp add: keeps_def)
  with afterLoop_Inr [OF a] show ?thesis by simp
qed

lemma parseFrom_cons2:
  "parseLoop K H envPaths (a # b # rest) config penv = parseLoop K H envPaths rest config' penv
   \<Longrightarrow> parseFrom K H config (a # b # rest) envPaths penv = parseFrom K H config' rest envPaths penv"
  by (simp only: parseFrom_def)

text \<open>
  C1, as amended. Whenever the loop reads the server flag and the server-local flag,
  each followed by a value (not empty, no leading dash), in any order and whatever
  tokens come before, between and after them, \<^verbatim>\<open>parseArguments\<close> returns no \<^verbatim>\<open>Config\<close>; and
  when the loop then ends and the checks before line 433 pass (dashboard base, plugins
  root), the failure is the \<^verbatim>\<open>ValidationError\<close> for combined server flags. A failure of the
  loop or of these checks comes first, and need not be a \<^verbatim>\<open>ValidationError\<close>. Besides:
  no \<^verbatim>\<open>Config\<close> returned has both versions set, and once both are recorded the call fails
  whatever tokens remain.
\<close>

theorem both_server_flags_rejected:
  "(\<forall>config'. fst (parseArguments K H argv envPaths penv) = Inr config' \<longrightarrow>
       serverFlagVersion config' = [] \<or> serverLocalFlagVersion config' = [])
   \<and> (serverFlagVersion config \<noteq> [] \<and> serverLocalFlagVersion config \<noteq> [] \<longrightarrow>
       (\<exists>e. fst (parseFrom K H config rest envPaths penv) = Inl e))
   \<and> (distinct (flagTable K) \<and> v \<noteq> [] \<and> \<not> startsWith v ''-'' \<and> t \<noteq> [] \<and> \<not> startsWith t ''-''
       \<longrightarrow>
       (\<exists>e. fst (parseFrom K H config
                    (FLAGS_SERVER K # v # FLAGS_SERVER_LOCAL K # t # rest) envPaths penv) = Inl e)
       \<and> (\<exists>e. fst (parseFrom K H config
                    (FLAGS_SERVER_LOCAL K # t # FLAGS_SERVER K # v # rest) envPaths penv) = Inl e))
   \<and> (\<forall>c c1 penv'. parseLoop K H envPaths argv newConfig penv = (Inr c, penv')
         \<and> serverFlagVersion c \<noteq> [] \<and> serverLocalFlagVersion c \<noteq> []
         \<and> andThen (andThen (resolveDashboardBase H envPaths c) (checkDashboardBase H envPaths))
              (defaultPluginsRoot H envPaths) = Inr c1 \<longrightarrow>
       parseArguments K H argv envPaths penv =
         (Inl (ValidationError MsgCannotCombineServerFlags), penv'))
   \<and> (distinct (flagTable K)
       \<and> (FLAGS_SERVER K, v # r) \<in> set (loopReads K H envPaths argv newConfig penv)
       \<and> v \<noteq> [] \<and> \<not> startsWith v ''-''
       \<and> (FLAGS_SERVER_LOCAL K, t # r') \<in> set (loopReads K H envPaths argv newConfig penv)
       \<and> t \<noteq> [] \<and> \<not> startsWith t ''-'' \<longrightarrow>
       (\<exists>e. fst (parseArguments K H argv envPaths penv) = Inl e)
       \<and> (\<forall>c c1 penv'. parseLoop K H envPaths argv newConfig penv = (Inr c, penv')
            \<and> andThen (andThen (resolveDashboardBase H envPaths c) (checkDashboardBase H envPaths))
                 (defaultPluginsRoot H envPaths) = Inr c1 \<longrightarrow>
            parseArguments K H argv envPaths penv =
              (Inl (ValidationError MsgCannotCombineServerFlags), penv')))"
proof (intro conjI impI)
  show "\<forall>config'. fst (parseArguments K H argv envPaths penv) = Inr config' \<longrightarrow>
       serverFlagVersion config' = [] \<or> serverLocalFlagVersion config' = []"
  proof (intro allI impI)
    fix config'
    assume r: "fst (parseArguments K H argv envPaths penv) = Inr config'"
    then obtain c penv' where l: "parseLoop K H envPaths argv newConfig penv = (Inr c, penv')"
      and a: "afterLoop H envPaths c = Inr config'"
      by (auto simp: parseArguments_def parseFrom_def split: prod.splits sum.splits)
    from afterLoop_Inr [OF a]
    show "serverFlagVersion config' = [] \<or> serverLocalFlagVersion config' = []"
      by auto
  qed
next
  assume b: "serverFlagVersion config \<noteq> [] \<and> serverLocalFlagVersion config \<noteq> []"
  then show "\<exists>e. fst (parseFrom K H config rest envPaths penv) = Inl e"
    by (intro parseFrom_both_recorded) simp_all
next
  assume a: "distinct (flagTable K) \<and> v \<noteq> [] \<and> \<not> startsWith v ''-'' \<and> t \<noteq> []
      \<and> \<not> startsWith t ''-''"
  then have d: "distinct (flagTable K)" and v: "v \<noteq> []" "\<not> startsWith v ''-''"
    and t: "t \<noteq> []" "\<not> startsWith t ''-''"
    by simp_all
  have "parseFrom K H config (FLAGS_SERVER K # v # FLAGS_SERVER_LOCAL K # t # rest) envPaths penv
      = parseFrom K H (config\<lparr>serverFlagVersion := v, serverLocalFlagVersion := t\<rparr>)
          rest envPaths penv"
    by (simp only: parseFrom_cons2 [OF parseLoop_server [OF d v]]
        parseFrom_cons2 [OF parseLoop_server_local [OF d t]])
  moreover have "\<exists>e. fst (parseFrom K H (config\<lparr>serverFlagVersion := v,
      serverLocalFlagVersion := t\<rparr>) rest envPaths penv) = Inl e"
    using v t by (intro parseFrom_both_recorded) simp_all
  ultimately show "\<exists>e. fst (parseFrom K H config
      (FLAGS_SERVER K # v # FLAGS_SERVER_LOCAL K # t # rest) envPaths penv) = Inl e"
    by simp
next
  assume a: "distinct (flagTable K) \<and> v \<noteq> [] \<and> \<not> startsWith v ''-'' \<and> t \<noteq> []
      \<and> \<not> startsWith t ''-''"
  then have d: "distinct (flagTable K)" and v: "v \<noteq> []" "\<not> startsWith v ''-''"
    and t: "t \<noteq> []" "\<not> startsWith t ''-''"
    by simp_all
  have "parseFrom K H config (FLAGS_SERVER_LOCAL K # t # FLAGS_SERVER K # v # rest) envPaths penv
      = parseFrom K H (config\<lparr>serverLocalFlagVersion := t, serverFlagVersion := v\<rparr>)
          rest envPaths penv"
    by (simp only: parseFrom_cons2 [OF parseLoop_server [OF d v]]
        parseFrom_cons2 [OF parseLoop_server_local [OF d t]])
  moreover have "\<exists>e. fst (parseFrom K H (config\<lparr>serverLocalFlagVersion := t,
      serverFlagVersion := v\<rparr>) rest envPaths penv) = Inl e"
    using v t by (intro parseFrom_both_recorded) simp_all
  ultimately show "\<exists>e. fst (parseFrom K H config
      (FLAGS_SERVER_LOCAL K # t # FLAGS_SERVER K # v # rest) envPaths penv) = Inl e"
    by simp
next
  show "\<forall>c c1 penv'. parseLoop K H envPaths argv newConfig penv = (Inr c, penv')
         \<and> serverFlagVersion c \<noteq> [] \<and> serverLocalFlagVersion c \<noteq> []
         \<and> andThen (andThen (resolveDashboardBase H envPaths c) (checkDashboardBase H envPaths))
              (defaultPluginsRoot H envPaths) = Inr c1 \<longrightarrow>
       parseArguments K H argv envPaths penv =
         (Inl (ValidationError MsgCannotCombineServerFlags), penv')"
  proof (intro allI impI)
    fix c c1 penv'
    assume h: "parseLoop K H envPaths argv newConfig penv = (Inr c, penv')
         \<and> serverFlagVersion c \<noteq> [] \<and> serverLocalFlagVersion c \<noteq> []
         \<and> andThen (andThen (resolveDashboardBase H envPaths c) (checkDashboardBase H envPaths))
              (defaultPluginsRoot H envPaths) = Inr c1"
    then have pre: "andThen (andThen (resolveDashboardBase H envPaths c)
        (checkDashboardBase H envPaths)) (defaultPluginsRoot H envPaths) = Inr c1"
      by simp
    have same: "serverFlagVersion c1 = serverFlagVersion c
        \<and> serverLocalFlagVersion c1 = serverLocalFlagVersion c"
      using pre
      by (auto simp: andThen_def resolveDashboardBase_def checkDashboardBase_def
          defaultPluginsRoot_def Let_def split: sum.splits if_splits option.splits)
    have "afterLoop H envPaths c = Inl (ValidationError MsgCannotCombineServerFlags)"
      using h same by (simp add: afterLoop_def pre andThen_def mapModeFlags_def)
    with h show "parseArguments K H argv envPaths penv =
         (Inl (ValidationError MsgCannotCombineServerFlags), penv')"
      by (simp add: parseArguments_def parseFrom_def)
  qed
next
  assume a: "distinct (flagTable K)
       \<and> (FLAGS_SERVER K, v # r) \<in> set (loopReads K H envPaths argv newConfig penv)
       \<and> v \<noteq> [] \<and> \<not> startsWith v ''-''
       \<and> (FLAGS_SERVER_LOCAL K, t # r') \<in> set (loopReads K H envPaths argv newConfig penv)
       \<and> t \<noteq> [] \<and> \<not> startsWith t ''-''"
  then have d: "distinct (flagTable K)"
    and sv: "(FLAGS_SERVER K, v # r) \<in> set (loopReads K H envPaths argv newConfig penv)"
    and v: "v \<noteq> []" "\<not> startsWith v ''-''"
    and st: "(FLAGS_SERVER_LOCAL K, t # r') \<in> set (loopReads K H envPaths argv newConfig penv)"
    and t: "t \<noteq> []" "\<not> startsWith t ''-''"
    by simp_all
  from both_read_fails [OF d sv v st t]
  show "\<exists>e. fst (parseArguments K H argv envPaths penv) = Inl e"
    and "\<forall>c c1 penv'. parseLoop K H envPaths argv newConfig penv = (Inr c, penv')
            \<and> andThen (andThen (resolveDashboardBase H envPaths c) (checkDashboardBase H envPaths))
                 (defaultPluginsRoot H envPaths) = Inr c1 \<longrightarrow>
            parseArguments K H argv envPaths penv =
              (Inl (ValidationError MsgCannotCombineServerFlags), penv')"
    unfolding parseArguments_def by blast+
qed

lemmas parse_defs =
  parseArguments_def parseFrom_def parseStep_def casePluginsRoot_def caseOsVersion_def
  caseOsdVersion_def caseAgentsUp_def caseSaml_def caseServer_def caseServerLocal_def
  caseRepo_def caseBase_def caseIndexerLocal_def caseDefault_def afterLoop_def andThen_def
  resolveDashboardBase_def checkDashboardBase_def defaultPluginsRoot_def mapModeFlags_def
  addUserRepositoryOverride_def repositoryPathLabel_def invalidRepoSpec_def Let_def
  startsWith_def newConfig_def

lemmas sample_defs =
  sampleConstants_def sampleHost_def sampleEnvPaths_def sampleToContainerPath_def

lemma sample_flagTable: "distinct (flagTable sampleConstants)"
  by (simp add: flagTable_def sampleConstants_def)

theorem both_server_flags_rejected_witness:
  "parseArguments sampleConstants sampleHost
     [''up'', ''--server'', ''1.0'', ''--saml'', ''--server-local'', ''tag'']
     sampleEnvPaths Map.empty
   = (Inl (ValidationError MsgCannotCombineServerFlags), Map.empty)"
  using both_server_flags_rejected [of sampleConstants sampleHost
      "[''up'', ''--server'', ''1.0'', ''--saml'', ''--server-local'', ''tag'']"
      sampleEnvPaths Map.empty "newConfig\<lparr>action := ''up''\<rparr>" "[]" "''1.0''" "''tag''"
      "[''--saml'', ''--server-local'', ''tag'']" "[]"]
    sample_flagTable
  by (simp add: parse_defs sample_defs)

text \<open>
  The claim as first stated fails: with both flags given, \<^verbatim>\<open>--base\<close> and no sibling root
  make the call raise a \<^verbatim>\<open>ConfigurationError\<close>, and a help flag makes it exit.
\<close>

theorem both_server_flags_counterexample:
  "fst (parseArguments sampleConstants sampleHost
          [''--server'', ''1.0'', ''--server-local'', ''tag'', ''--base'']
          (sampleEnvPaths\<lparr>siblingRepoHostRoot := []\<rparr>) Map.empty)
     = Inl (ConfigurationError MsgCannotInferDashboardBase)
   \<and> fst (parseArguments sampleConstants sampleHost
          [''--server'', ''1.0'', ''--server-local'', ''tag'', ''--help''] sampleEnvPaths Map.empty)
     = Inl (ProcessExit 1)"
  by (simp add: parse_defs sample_defs)





text \<open>
  C6, on the code. The case of \<^verbatim>\<open>FLAGS.REPO\<close> does not check its value: with no token
  after the flag \<^verbatim>\<open>parseArguments\<close> fails with a \<^verbatim>\<open>TypeError\<close>, not a \<^verbatim>\<open>ValidationError\<close>,
  and a token with a leading dash and no \<^verbatim>\<open>=\<close> is taken as a repository name and
  recorded as an override under the sibling root.
\<close>

theorem repo_flag_value_unchecked:
  assumes "distinct (flagTable K)"
  shows "parseFrom K H config [FLAGS_REPO K] envPaths penv
           = (Inl (TypeError ''Cannot read properties of undefined (reading includes)''), penv)
       \<and> (startsWith v ''-'' \<and> \<not> includesStr v ''='' \<and> siblingRepoHostRoot envPaths \<noteq> []
            \<and> ensureAccessibleHostPath H
                 (stripTrailingSlash H (resolve H (siblingRepoHostRoot envPaths)
                    (if v \<in> set (SECURITY_PLUGIN_ALIASES K) then SECURITY_PLUGIN_REPO_NAME K else v)))
                 (repositoryPathLabel v) envPaths = None \<longrightarrow>
          parseLoop K H envPaths (FLAGS_REPO K # v # rest) config penv =
          parseLoop K H envPaths rest
            (addUserRepositoryOverride
               \<lparr>name = v,
                path = stripTrailingSlash H (resolve H (siblingRepoHostRoot envPaths)
                    (if v \<in> set (SECURITY_PLUGIN_ALIASES K) then SECURITY_PLUGIN_REPO_NAME K else v))\<rparr>
               config) penv)"
  by (simp add: parseFrom_def parseStep_repo [OF assms] caseRepo_def Let_def)

theorem repo_flag_value_unchecked_witness:
  "fst (parseArguments sampleConstants sampleHost [''up'', ''--repo''] sampleEnvPaths Map.empty)
     = Inl (TypeError ''Cannot read properties of undefined (reading includes)'')
   \<and> map_sum id userRepositories
       (fst (parseArguments sampleConstants sampleHost [''up'', ''--repo'', ''-x'']
          sampleEnvPaths Map.empty))
     = Inr [\<lparr>name = ''-x'', path = ''/home/-x''\<rparr>]"
  using repo_flag_value_unchecked [OF sample_flagTable, of sampleHost
      "newConfig\<lparr>action := ''up''\<rparr>" sampleEnvPaths Map.empty "''-x''" "[]"]
  by (simp add: parse_defs sample_defs)

text \<open>
  C7, on the code. After \<^verbatim>\<open>FLAGS.BASE\<close> a token with a leading dash, or an action that
  is not an absolute path, is left to be read next. After \<^verbatim>\<open>FLAGS.INDEXER_LOCAL\<close> the same
  token is passed over and stored as \<^verbatim>\<open>IMAGE_INDEXER_PACKAGE_TAG\<close>: the first test,
  \<^verbatim>\<open>if (nextArg)\<close>, takes every token that is not empty, and the test for a dash or an
  action after it is never reached.
\<close>

theorem indexer_local_takes_flag_or_action:
  assumes "distinct (flagTable K)"
    and "startsWith nextArg ''-'' \<or> nextArg \<in> set (ACTIONS K)"
    and "nextArg \<noteq> []" and "\<not> startsWith nextArg ''/''"
  shows "parseLoop K H envPaths (FLAGS_BASE K # nextArg # rest) config penv =
         parseLoop K H envPaths (nextArg # rest) (config\<lparr>useDashboardFromSource := True\<rparr>) penv
       \<and> parseLoop K H envPaths (FLAGS_INDEXER_LOCAL K # nextArg # rest) config penv =
         parseLoop K H envPaths rest (config\<lparr>useIndexerFromPackage := True\<rparr>)
           (penv(''IMAGE_INDEXER_PACKAGE_TAG'' \<mapsto> nextArg))"
proof
  show "parseLoop K H envPaths (FLAGS_BASE K # nextArg # rest) config penv =
         parseLoop K H envPaths (nextArg # rest) (config\<lparr>useDashboardFromSource := True\<rparr>) penv"
    using assms(2,3,4)
    by (auto simp: parseStep_base [OF assms(1)] caseBase_def Let_def)
  show "parseLoop K H envPaths (FLAGS_INDEXER_LOCAL K # nextArg # rest) config penv =
         parseLoop K H envPaths rest (config\<lparr>useIndexerFromPackage := True\<rparr>)
           (penv(''IMAGE_INDEXER_PACKAGE_TAG'' \<mapsto> nextArg))"
    using assms(1,3) by (rule parseLoop_indexer_local)
qed

theorem indexer_local_takes_flag_or_action_witness:
  "map_sum id action
       (fst (parseArguments sampleConstants sampleHost [''--indexer-local'', ''up'']
          sampleEnvPaths Map.empty)) = Inr []
   \<and> snd (parseArguments sampleConstants sampleHost [''--indexer-local'', ''up'']
          sampleEnvPaths Map.empty) ''IMAGE_INDEXER_PACKAGE_TAG'' = Some ''up''
   \<and> map_sum id action
       (fst (parseArguments sampleConstants sampleHost [''--base'', ''up'']
          sampleEnvPaths Map.empty)) = Inr ''up''"
  using indexer_local_takes_flag_or_action [OF sample_flagTable, of "''up''" sampleHost
      sampleEnvPaths "[]" newConfig Map.empty]
  by (simp add: parse_defs sample_defs)

text \<open>
  C8, as amended. Where the loop reads \<^verbatim>\<open>FLAGS.REPO\<close> followed by a name with no \<^verbatim>\<open>=\<close>:
  with no sibling root, \<^verbatim>\<open>parseArguments\<close> fails with a \<^verbatim>\<open>ValidationError\<close>. With a sibling
  root and a name among the security-plugin aliases, the path inferred is
  \<^verbatim>\<open>siblingRepoHostRoot/SECURITY_PLUGIN_REPO_NAME\<close>: when \<^verbatim>\<open>ensureAccessibleHostPath\<close>
  accepts it, the loop goes on with the override of that name and path recorded, and
  every \<^verbatim>\<open>Config\<close> the call returns holds it; when \<^verbatim>\<open>ensureAccessibleHostPath\<close> refuses it,
  the call fails with the error of that check and nothing is recorded.
\<close>

theorem repo_shorthand_alias:
  assumes "distinct (flagTable K)" and "\<not> includesStr repoName ''=''"
  shows "(siblingRepoHostRoot envPaths = [] \<longrightarrow>
            parseFrom K H config (FLAGS_REPO K # repoName # rest) envPaths penv =
              (Inl (ValidationError (MsgCannotResolveRepositoryUnderCommonParent
                      repoName (FLAGS_REPO K) ''SIBLING_REPO_HOST_ROOT'')), penv))
       \<and> (siblingRepoHostRoot envPaths \<noteq> [] \<and> repoName \<in> set (SECURITY_PLUGIN_ALIASES K) \<longrightarrow>
            parseLoop K H envPaths (FLAGS_REPO K # repoName # rest) config penv =
              (case ensureAccessibleHostPath H
                      (stripTrailingSlash H
                         (resolve H (siblingRepoHostRoot envPaths) (SECURITY_PLUGIN_REPO_NAME K)))
                      (repositoryPathLabel repoName) envPaths of
                 Some e \<Rightarrow> (Inl e, penv)
               | None \<Rightarrow>
                   parseLoop K H envPaths rest
                     (addUserRepositoryOverride
                        \<lparr>name = repoName,
                         path = stripTrailingSlash H
                           (resolve H (siblingRepoHostRoot envPaths) (SECURITY_PLUGIN_REPO_NAME K))\<rparr>
                        config) penv)
            \<and> (\<forall>config'.
                  fst (parseFrom K H config (FLAGS_REPO K # repoName # rest) envPaths penv)
                    = Inr config' \<longrightarrow>
                  \<lparr>name = repoName,
                   path = stripTrailingSlash H
                     (resolve H (siblingRepoHostRoot envPaths) (SECURITY_PLUGIN_REPO_NAME K))\<rparr>
                  \<in> set (userRepositories config')))
       \<and> (siblingRepoHostRoot envPaths \<noteq> [] \<and> repoName \<in> set (SECURITY_PLUGIN_ALIASES K)
            \<and> ensureAccessibleHostPath H
                 (stripTrailingSlash H
                    (resolve H (siblingRepoHostRoot envPaths) (SECURITY_PLUGIN_REPO_NAME K)))
                 (repositoryPathLabel repoName) envPaths = Some e \<longrightarrow>
            parseFrom K H config (FLAGS_REPO K # repoName # rest) envPaths penv = (Inl e, penv))"
proof (intro conjI impI allI)
  assume "siblingRepoHostRoot envPaths = []"
  then show "parseFrom K H config (FLAGS_REPO K # repoName # rest) envPaths penv =
              (Inl (ValidationError (MsgCannotResolveRepositoryUnderCommonParent
                      repoName (FLAGS_REPO K) ''SIBLING_REPO_HOST_ROOT'')), penv)"
    using assms(2) by (simp add: parseFrom_def parseStep_repo [OF assms(1)] caseRepo_def Let_def)
next
  assume a: "siblingRepoHostRoot envPaths \<noteq> [] \<and> repoName \<in> set (SECURITY_PLUGIN_ALIASES K)"
  let ?p = "stripTrailingSlash H
     (resolve H (siblingRepoHostRoot envPaths) (SECURITY_PLUGIN_REPO_NAME K))"
  show step: "parseLoop K H envPaths (FLAGS_REPO K # repoName # rest) config penv =
      (case ensureAccessibleHostPath H ?p (repositoryPathLabel repoName) envPaths of
         Some e \<Rightarrow> (Inl e, penv)
       | None \<Rightarrow>
           parseLoop K H envPaths rest
             (addUserRepositoryOverride \<lparr>name = repoName, path = ?p\<rparr> config) penv)"
    using assms(2) a
    by (simp add: parseStep_repo [OF assms(1)] caseRepo_def Let_def split: option.splits)
  fix config'
  assume r: "fst (parseFrom K H config (FLAGS_REPO K # repoName # rest) envPaths penv)
      = Inr config'"
  then obtain c penv' where
    l: "parseLoop K H envPaths (FLAGS_REPO K # repoName # rest) config penv = (Inr c, penv')"
    and al: "afterLoop H envPaths c = Inr config'"
    by (auto simp: parseFrom_def split: prod.splits sum.splits)
  from l have l': "parseLoop K H envPaths rest
      (addUserRepositoryOverride \<lparr>name = repoName, path = ?p\<rparr> config) penv = (Inr c, penv')"
    unfolding step by (simp split: option.splits)
  from parseLoop_keeps [OF l']
  have "\<lparr>name = repoName, path = ?p\<rparr> \<in> set (userRepositories c)"
    by (auto simp: keeps_def addUserRepositoryOverride_def)
  with afterLoop_Inr [OF al]
  show "\<lparr>name = repoName, path = ?p\<rparr> \<in> set (userRepositories config')"
    by simp
next
  assume "siblingRepoHostRoot envPaths \<noteq> [] \<and> repoName \<in> set (SECURITY_PLUGIN_ALIASES K)
      \<and> ensureAccessibleHostPath H
           (stripTrailingSlash H
              (resolve H (siblingRepoHostRoot envPaths) (SECURITY_PLUGIN_REPO_NAME K)))
           (repositoryPathLabel repoName) envPaths = Some e"
  then show "parseFrom K H config (FLAGS_REPO K # repoName # rest) envPaths penv = (Inl e, penv)"
    using assms(2) by (simp add: parseFrom_def parseStep_repo [OF assms(1)] caseRepo_def Let_def)
qed

theorem repo_shorthand_alias_witness:
  "map_sum id userRepositories
     (fst (parseArguments sampleConstants sampleHost [''--repo'', ''security'', ''up'']
        sampleEnvPaths Map.empty))
     = Inr [\<lparr>name = ''security'', path = ''/home/wazuh-security-dashboards-plugin''\<rparr>]
   \<and> fst (parseArguments sampleConstants sampleHost [''--repo'', ''security'', ''up'']
        (sampleEnvPaths\<lparr>siblingRepoHostRoot := []\<rparr>) Map.empty)
     = Inl (ValidationError (MsgCannotResolveRepositoryUnderCommonParent
              ''security'' ''--repo'' ''SIBLING_REPO_HOST_ROOT''))"
  using repo_shorthand_alias [OF sample_flagTable, of "''security''" sampleEnvPaths sampleHost
      newConfig "[''up'']" Map.empty]
    repo_shorthand_alias [OF sample_flagTable, of "''security''"
      "sampleEnvPaths\<lparr>siblingRepoHostRoot := []\<rparr>" sampleHost newConfig "[''up'']" Map.empty]
  by (simp add: parse_defs sample_defs)

text \<open>
  The claim as first stated fails: with a sibling root that is not mounted in the
  container, \<^verbatim>\<open>ensureAccessibleHostPath\<close> refuses the inferred path, the call fails and no
  override is recorded.
\<close>

theorem repo_shorthand_alias_counterexample:
  "parseArguments sampleConstants sampleHost [''--repo'', ''security'', ''up'']
     (sampleEnvPaths\<lparr>siblingRepoHostRoot := ''/srv''\<rparr>) Map.empty
   = (Inl (ValidationError (MsgText (repositoryPathLabel ''security''))), Map.empty)"
  by (simp add: parse_defs sample_defs)




end
